theory Spec2Isabelle
  imports Main "HOL-Library.Multiset"
begin

section \<open>Values, formatting and the shared types\<close>

text \<open>
  Go's \<^verbatim>\<open>interface{}\<close> holds a value together with its dynamic type. The constructors
  below are the dynamic types that occur in the parameter maps, inputs, step payloads and
  outputs of the algorithms: \<^verbatim>\<open>nil\<close>, \<^verbatim>\<open>int\<close>, \<^verbatim>\<open>float64\<close> (what encoding/json makes of
  a JSON number; only its integral values are needed), \<^verbatim>\<open>bool\<close>, \<^verbatim>\<open>string\<close>, \<^verbatim>\<open>[]int\<close>,
  \<^verbatim>\<open>[]interface{}\<close> and \<^verbatim>\<open>map[string]interface{}\<close>. A type assertion \<^verbatim>\<open>v.(int)\<close>
  succeeds on \<open>DInt\<close> only, \<^verbatim>\<open>v.(bool)\<close> on \<open>DBool\<close> only, and so on.
  Go's \<^verbatim>\<open>int\<close> is modelled by \<open>int\<close>: the programs compare and copy array elements
  and count loop iterations, none of which can leave the 64-bit range.
\<close>

datatype dyn =
    DNil
  | DInt int
  | DFloat64 int
  | DBool bool
  | DString string
  | DIntSlice "int list"
  | DSlice "dyn list"
  | DMap "(string \<times> dyn) list"

type_synonym params = "string \<Rightarrow> dyn option"

text \<open>The comma-ok type assertions \<^verbatim>\<open>parameters[name].(int)\<close>, \<^verbatim>\<open>.(bool)\<close>, \<^verbatim>\<open>.(string)\<close>;
  a missing key reads as the nil interface, on which every assertion fails.\<close>

fun assert_int :: "dyn option \<Rightarrow> int option" where
  "assert_int (Some (DInt n)) = Some n"
| "assert_int _ = None"

fun assert_bool :: "dyn option \<Rightarrow> bool option" where
  "assert_bool (Some (DBool b)) = Some b"
| "assert_bool _ = None"

fun assert_string :: "dyn option \<Rightarrow> string option" where
  "assert_string (Some (DString s)) = Some s"
| "assert_string _ = None"

text \<open>\<^verbatim>\<open>fmt.Sprintf("%d", n)\<close>: the decimal digits, with a minus sign for a negative number.\<close>

fun digits :: "nat \<Rightarrow> string" where
  "digits n = (if n < 10 then [''0123456789'' ! n]
               else digits (n div 10) @ [''0123456789'' ! (n mod 10)])"

declare digits.simps [simp del]

definition fmt_d :: "int \<Rightarrow> string" where
  "fmt_d n = (if n < 0 then CHR ''-'' # digits (nat (- n)) else digits (nat n))"

text \<open>
  The records of package \<^verbatim>\<open>types\<close>. Free-text fields that no operation reads
  (\<^verbatim>\<open>Name\<close>, \<^verbatim>\<open>Description\<close>, \<^verbatim>\<open>BigO\<close> of an algorithm, \<^verbatim>\<open>Description\<close> of a
  parameter) and the wall-clock \<^verbatim>\<open>Timestamp\<close>, \<^verbatim>\<open>StartTime\<close>, \<^verbatim>\<open>EndTime\<close> fields are
  left out. \<^verbatim>\<open>Min\<close> and \<^verbatim>\<open>Max\<close> are \<^verbatim>\<open>*int\<close>, so optional.
\<close>

record Parameter =
  Name :: string
  Type :: string
  Default :: dyn
  Min' :: "int option"
  Max' :: "int option"
  Required :: bool

record Algorithm =
  ID :: string
  Category :: string
  Parameters :: "Parameter list"

record ExecutionStep =
  StepNumber :: int
  Action :: string
  Data :: "(string \<times> dyn) list"
  Message :: string

datatype ExecutionStatus =
  StatusPending | StatusRunning | StatusPaused | StatusCompleted | StatusError | StatusCancelled

text \<open>
  What a call of \<^verbatim>\<open>Execute\<close> does: it either returns its pair \<^verbatim>\<open>(interface{}, error)\<close>
  (the error, when not nil, by its message), or it panics. The steps it handed to the
  callback before that, in call order, are kept beside the outcome.
\<close>

datatype outcome = Returned dyn "string option" | Panicked string

type_synonym run = "ExecutionStep list \<times> outcome"

section \<open>Array generation\<close>

text \<open>
  \<^verbatim>\<open>generateRandomArray\<close> (the same text in packages sorting and searching).
  \<^verbatim>\<open>make([]int, size)\<close> panics on a negative size. The loop indices are never negative
  and are natural numbers here; for the empty slice \<^verbatim>\<open>len(arr) - 1\<close> is \<open>-1\<close> in Go and
  \<open>0\<close> here, and the loop test \<^verbatim>\<open>i > 0\<close> fails for both. The operands of \<^verbatim>\<open>%\<close> are
  non-negative, where Go's remainder is \<open>mod\<close>.
\<close>

function fill_loop :: "nat \<Rightarrow> nat \<Rightarrow> int list \<Rightarrow> int list" where
  "fill_loop size' i arr =
     (if i < size' then fill_loop size' (i + 1) (arr[i := int i + 1]) else arr)"
  by pat_completeness auto

termination
  by (relation "measure (\<lambda>(size', i, arr). size' - i)") auto

declare fill_loop.simps [simp del]

fun shuffle_loop :: "nat \<Rightarrow> int list \<Rightarrow> int list" where
  "shuffle_loop i arr =
     (if i > 0 then
        (let j = i mod (i + 1)
         in shuffle_loop (i - 1) (arr[i := arr ! j, j := arr ! i]))
      else arr)"

declare shuffle_loop.simps [simp del]

definition generateRandomArray :: "int \<Rightarrow> int list option" where
  "generateRandomArray size' =
     (if size' < 0 then None
      else (let arr = replicate (nat size') 0;
                arr = fill_loop (nat size') 0 arr
            in Some (shuffle_loop (length arr - 1) arr)))"

text \<open>
  \<^verbatim>\<open>generateRandomArrayWithMax\<close> of counting sort. \<^verbatim>\<open>i % maxValue\<close> panics when
  \<^verbatim>\<open>maxValue\<close> is zero; Go's remainder takes the sign of the dividend, and \<open>i\<close> is
  not negative, so it is \<open>i mod \<bar>maxValue\<bar>\<close>.
\<close>

function fill_loop_max :: "nat \<Rightarrow> int \<Rightarrow> nat \<Rightarrow> int list \<Rightarrow> int list option" where
  "fill_loop_max size' maxValue i arr =
     (if i < size' then
        (if maxValue = 0 then None
         else fill_loop_max size' maxValue (i + 1) (arr[i := (int i mod \<bar>maxValue\<bar>) + 1]))
      else Some arr)"
  by pat_completeness auto

termination
  by (relation "measure (\<lambda>(size', maxValue, i, arr). size' - i)") auto

declare fill_loop_max.simps [simp del]

definition generateRandomArrayWithMax :: "int \<Rightarrow> int \<Rightarrow> int list option" where
  "generateRandomArrayWithMax size' maxValue =
     (if size' < 0 then None
      else (case fill_loop_max (nat size') maxValue 0 (replicate (nat size') 0) of
              None \<Rightarrow> None
            | Some arr \<Rightarrow> Some (shuffle_loop (length arr - 1) arr)))"

text \<open>
  The opening of \<^verbatim>\<open>Execute\<close> in bubble, merge, quick and heap sort and in linear and
  binary search (lines 53 to 67 of each, word for word the same): a given input must be
  an \<^verbatim>\<open>[]int\<close>, otherwise the call returns the error; without an input the array is
  generated, of size \<^verbatim>\<open>array_size\<close> when that parameter is an \<^verbatim>\<open>int\<close> and 10 otherwise.
\<close>

datatype 'a step_result = Go_on 'a | Stop outcome

definition input_array :: "dyn \<Rightarrow> params \<Rightarrow> int list step_result" where
  "input_array input parameters =
     (if input \<noteq> DNil then
        (case input of
           DIntSlice inputArr \<Rightarrow> Go_on inputArr
         | _ \<Rightarrow> Stop (Returned DNil (Some ''invalid input type, expected []int'')))
      else
        (let arraySize = (case assert_int (parameters ''array_size'') of
                            Some size' \<Rightarrow> size' | None \<Rightarrow> 10)
         in case generateRandomArray arraySize of
              None \<Rightarrow> Stop (Panicked ''makeslice: len out of range'')
            | Some arr \<Rightarrow> Go_on arr))"

text \<open>The same opening in counting sort (lines 55 to 73), with its own generator and
  the second parameter \<^verbatim>\<open>max_value\<close>, 20 when it is not an \<^verbatim>\<open>int\<close>.\<close>

definition CountingSort_input_array :: "dyn \<Rightarrow> params \<Rightarrow> int list step_result" where
  "CountingSort_input_array input parameters =
     (if input \<noteq> DNil then
        (case input of
           DIntSlice inputArr \<Rightarrow> Go_on inputArr
         | _ \<Rightarrow> Stop (Returned DNil (Some ''invalid input type, expected []int'')))
      else
        (let arraySize = (case assert_int (parameters ''array_size'') of
                            Some size' \<Rightarrow> size' | None \<Rightarrow> 10);
             maxValue = (case assert_int (parameters ''max_value'') of
                            Some max' \<Rightarrow> max' | None \<Rightarrow> 20)
         in case generateRandomArrayWithMax arraySize maxValue of
              None \<Rightarrow> Stop (Panicked ''runtime error'')
            | Some arr \<Rightarrow> Go_on arr))"

section \<open>Bubble sort\<close>

text \<open>
  \<^verbatim>\<open>BubbleSort.Execute\<close>. The local variables of the method are the fields of the state;
  \<open>emitted\<close> collects the steps handed to \<^verbatim>\<open>stepCallback\<close>, in call order. The payload
  of a step holds the slice \<^verbatim>\<open>arr\<close> itself; it is recorded with the contents it has when
  the callback runs, which is what the callback serialises. The loop guards keep every
  index below \<^verbatim>\<open>len(arr)\<close> (\<open>j + 1 < n - i\<close>), so no read is out of range, and the
  counters are natural numbers where the source's are never negative: \<^verbatim>\<open>n-1\<close> is \<open>-1\<close>
  for the empty slice in Go and \<open>0\<close> here, and \<^verbatim>\<open>i < n-1\<close> fails for both.
\<close>

record bs_state =
  arr :: "int list"
  comparisons :: int
  swaps :: int
  stepNumber :: int
  swapped :: bool
  emitted :: "ExecutionStep list"

definition stepCallback :: "ExecutionStep \<Rightarrow> bs_state \<Rightarrow> bs_state" where
  "stepCallback st s = s\<lparr>emitted := emitted s @ [st]\<rparr>"

definition initialize_step :: "int list \<Rightarrow> bool \<Rightarrow> ExecutionStep" where
  "initialize_step a showComparisons =
     \<lparr>StepNumber = 0, Action = ''initialize'',
      Data = [(''array'', DIntSlice a), (''comparisons'', DInt 0), (''swaps'', DInt 0),
              (''show_comparisons'', DBool showComparisons)],
      Message = ''Starting Bubble Sort''\<rparr>"

definition outer_loop_step :: "nat \<Rightarrow> bs_state \<Rightarrow> ExecutionStep" where
  "outer_loop_step i s =
     \<lparr>StepNumber = stepNumber s, Action = ''outer_loop'',
      Data = [(''array'', DIntSlice (arr s)), (''outer_index'', DInt (int i)),
              (''comparisons'', DInt (comparisons s)), (''swaps'', DInt (swaps s))],
      Message = ''Outer loop iteration '' @ fmt_d (int i + 1)\<rparr>"

definition compare_step :: "nat \<Rightarrow> nat \<Rightarrow> bs_state \<Rightarrow> ExecutionStep" where
  "compare_step i j s =
     \<lparr>StepNumber = stepNumber s, Action = ''compare'',
      Data = [(''array'', DIntSlice (arr s)),
              (''comparing'', DIntSlice [int j, int j + 1]),
              (''values'', DIntSlice [arr s ! j, arr s ! (j + 1)]),
              (''comparisons'', DInt (comparisons s)), (''swaps'', DInt (swaps s)),
              (''outer_index'', DInt (int i)), (''inner_index'', DInt (int j))],
      Message = ''Comparing '' @ fmt_d (arr s ! j) @ '' and '' @ fmt_d (arr s ! (j + 1))\<rparr>"

definition swap_step :: "nat \<Rightarrow> nat \<Rightarrow> bs_state \<Rightarrow> ExecutionStep" where
  "swap_step i j s =
     \<lparr>StepNumber = stepNumber s, Action = ''swap'',
      Data = [(''array'', DIntSlice (arr s)),
              (''swapped'', DIntSlice [int j, int j + 1]),
              (''values'', DIntSlice [arr s ! (j + 1), arr s ! j]),
              (''comparisons'', DInt (comparisons s)), (''swaps'', DInt (swaps s)),
              (''outer_index'', DInt (int i)), (''inner_index'', DInt (int j))],
      Message = ''Swapped '' @ fmt_d (arr s ! (j + 1)) @ '' and '' @ fmt_d (arr s ! j)\<rparr>"

definition early_termination_step :: "nat \<Rightarrow> bs_state \<Rightarrow> ExecutionStep" where
  "early_termination_step i s =
     \<lparr>StepNumber = stepNumber s, Action = ''early_termination'',
      Data = [(''array'', DIntSlice (arr s)), (''comparisons'', DInt (comparisons s)),
              (''swaps'', DInt (swaps s)), (''outer_index'', DInt (int i))],
      Message = ''Array is sorted, terminating early''\<rparr>"

definition complete_step :: "bs_state \<Rightarrow> ExecutionStep" where
  "complete_step s =
     \<lparr>StepNumber = stepNumber s, Action = ''complete'',
      Data = [(''array'', DIntSlice (arr s)), (''comparisons'', DInt (comparisons s)),
              (''swaps'', DInt (swaps s)), (''sorted'', DBool True)],
      Message = ''Bubble Sort completed with '' @ fmt_d (comparisons s)
                @ '' comparisons and '' @ fmt_d (swaps s) @ '' swaps''\<rparr>"

text \<open>The body of the inner loop (lines 112 to 155): count the comparison, report it when
  asked to, and swap the two neighbours when they are out of order.\<close>

definition inner_body :: "bool \<Rightarrow> nat \<Rightarrow> nat \<Rightarrow> bs_state \<Rightarrow> bs_state" where
  "inner_body showComparisons i j s =
     (let s = s\<lparr>comparisons := comparisons s + 1\<rparr>;
          s = (if showComparisons
               then (stepCallback (compare_step i j s) s)\<lparr>stepNumber := stepNumber s + 1\<rparr>
               else s)
      in if arr s ! j > arr s ! (j + 1) then
           (let s = s\<lparr>arr := (arr s)[j := arr s ! (j + 1), j + 1 := arr s ! j]\<rparr>;
                s = s\<lparr>swaps := swaps s + 1\<rparr>;
                s = s\<lparr>swapped := True\<rparr>;
                s = stepCallback (swap_step i j s) s
            in s\<lparr>stepNumber := stepNumber s + 1\<rparr>)
         else s)"

function inner_loop :: "nat \<Rightarrow> bool \<Rightarrow> nat \<Rightarrow> nat \<Rightarrow> bs_state \<Rightarrow> bs_state" where
  "inner_loop n showComparisons i j s =
     (if j < n - i - 1
      then inner_loop n showComparisons i (j + 1) (inner_body showComparisons i j s)
      else s)"
  by pat_completeness auto

termination
  by (relation "measure (\<lambda>(n, showComparisons, i, j, s). n - i - 1 - j)") auto

declare inner_loop.simps [simp del]

text \<open>The outer loop (lines 94 to 175); the \<^verbatim>\<open>break\<close> after a pass without a swap ends it.\<close>

function outer_loop :: "nat \<Rightarrow> bool \<Rightarrow> nat \<Rightarrow> bs_state \<Rightarrow> bs_state" where
  "outer_loop n showComparisons i s =
     (if i < n - 1 then
        (let s = s\<lparr>swapped := False\<rparr>;
             s = (stepCallback (outer_loop_step i s) s)\<lparr>stepNumber := stepNumber s + 1\<rparr>;
             s = inner_loop n showComparisons i 0 s
         in if \<not> swapped s
            then (stepCallback (early_termination_step i s) s)\<lparr>stepNumber := stepNumber s + 1\<rparr>
            else outer_loop n showComparisons (i + 1) s)
      else s)"
  by pat_completeness auto

termination
  by (relation "measure (\<lambda>(n, showComparisons, i, s). n - 1 - i)") auto

declare outer_loop.simps [simp del]

definition BubbleSort_Execute :: "dyn \<Rightarrow> params \<Rightarrow> run" where
  "BubbleSort_Execute input parameters =
     (case input_array input parameters of
        Stop out \<Rightarrow> ([], out)
      | Go_on arr0 \<Rightarrow>
          (let showComparisons = (case assert_bool (parameters ''show_comparisons'') of
                                    Some show' \<Rightarrow> show' | None \<Rightarrow> True);
               s = \<lparr>arr = arr0, comparisons = 0, swaps = 0, stepNumber = 1, swapped = False,
                    emitted = [initialize_step arr0 showComparisons]\<rparr>;
               n = length arr0;
               s = outer_loop n showComparisons 0 s;
               s = stepCallback (complete_step s) s
           in (emitted s, Returned (DIntSlice (arr s)) None)))"

section \<open>Binary search\<close>

text \<open>
  \<^verbatim>\<open>BinarySearch.Execute\<close>. \<^verbatim>\<open>left\<close>, \<^verbatim>\<open>right\<close> and \<^verbatim>\<open>mid\<close> are Go ints (\<^verbatim>\<open>right\<close>
  starts at \<open>-1\<close> for the empty slice); \<^verbatim>\<open>(right-left)/2\<close> is taken of a non-negative
  number, where Go's truncating division is \<open>div\<close>. Reading \<^verbatim>\<open>arr[mid]\<close> outside the
  slice panics, which the loop writes out. \<^verbatim>\<open>sort.Ints\<close> puts the slice in increasing
  order, which is what \<open>sort\<close> returns.
\<close>

definition search_initialize_step :: "int list \<Rightarrow> int \<Rightarrow> ExecutionStep" where
  "search_initialize_step a target =
     \<lparr>StepNumber = 0, Action = ''initialize'',
      Data = [(''array'', DIntSlice a), (''target'', DInt target)],
      Message = ''Starting Binary Search for target: '' @ fmt_d target @ '' in sorted array''\<rparr>"

definition check_middle_step :: "int list \<Rightarrow> int \<Rightarrow> int \<Rightarrow> int \<Rightarrow> int \<Rightarrow> int \<Rightarrow> ExecutionStep" where
  "check_middle_step a target left right mid comparisons' =
     \<lparr>StepNumber = comparisons', Action = ''check_middle'',
      Data = [(''array'', DIntSlice a), (''target'', DInt target), (''left'', DInt left),
              (''right'', DInt right), (''mid'', DInt mid), (''mid_value'', DInt (a ! nat mid)),
              (''comparisons'', DInt comparisons')],
      Message = ''Checking middle element '' @ fmt_d (a ! nat mid) @ '' at index '' @ fmt_d mid\<rparr>"

definition found_step :: "int list \<Rightarrow> int \<Rightarrow> int \<Rightarrow> int \<Rightarrow> ExecutionStep" where
  "found_step a target mid comparisons' =
     \<lparr>StepNumber = comparisons' + 1, Action = ''found'',
      Data = [(''array'', DIntSlice a), (''target'', DInt target), (''found_at'', DInt mid),
              (''value'', DInt (a ! nat mid)), (''comparisons'', DInt comparisons')],
      Message = ''Target '' @ fmt_d target @ '' found at index '' @ fmt_d mid @ '' after ''
                @ fmt_d comparisons' @ '' comparisons''\<rparr>"

definition search_right_step :: "int list \<Rightarrow> int \<Rightarrow> int \<Rightarrow> int \<Rightarrow> int \<Rightarrow> int \<Rightarrow> ExecutionStep" where
  "search_right_step a target left right mid comparisons' =
     \<lparr>StepNumber = comparisons' + 1, Action = ''search_right'',
      Data = [(''array'', DIntSlice a), (''target'', DInt target), (''left'', DInt left),
              (''right'', DInt right), (''mid'', DInt mid), (''comparisons'', DInt comparisons')],
      Message = ''Target is greater than '' @ fmt_d (a ! nat mid) @ '', searching right half''\<rparr>"

definition search_left_step :: "int list \<Rightarrow> int \<Rightarrow> int \<Rightarrow> int \<Rightarrow> int \<Rightarrow> int \<Rightarrow> ExecutionStep" where
  "search_left_step a target left right mid comparisons' =
     \<lparr>StepNumber = comparisons' + 1, Action = ''search_left'',
      Data = [(''array'', DIntSlice a), (''target'', DInt target), (''left'', DInt left),
              (''right'', DInt right), (''mid'', DInt mid), (''comparisons'', DInt comparisons')],
      Message = ''Target is less than '' @ fmt_d (a ! nat mid) @ '', searching left half''\<rparr>"

definition not_found_step :: "int list \<Rightarrow> int \<Rightarrow> int \<Rightarrow> ExecutionStep" where
  "not_found_step a target comparisons' =
     \<lparr>StepNumber = comparisons' + 1, Action = ''not_found'',
      Data = [(''array'', DIntSlice a), (''target'', DInt target),
              (''comparisons'', DInt comparisons')],
      Message = ''Target '' @ fmt_d target @ '' not found after '' @ fmt_d comparisons'
                @ '' comparisons''\<rparr>"

definition found_result :: "int list \<Rightarrow> int \<Rightarrow> int \<Rightarrow> dyn" where
  "found_result a mid comparisons' =
     DMap [(''found'', DBool True), (''index'', DInt mid), (''value'', DInt (a ! nat mid)),
           (''comparisons'', DInt comparisons')]"

definition not_found_result :: "int \<Rightarrow> dyn" where
  "not_found_result comparisons' =
     DMap [(''found'', DBool False), (''index'', DInt (- 1)), (''value'', DNil),
           (''comparisons'', DInt comparisons')]"

function search_loop ::
  "int list \<Rightarrow> int \<Rightarrow> int \<Rightarrow> int \<Rightarrow> int \<Rightarrow> ExecutionStep list \<Rightarrow> run" where
  "search_loop a target left right comparisons' steps =
     (if left \<le> right then
        (let mid = left + (right - left) div 2;
             comparisons' = comparisons' + 1
         in if mid < 0 \<or> int (length a) \<le> mid
            then (steps, Panicked ''index out of range'')
            else
              (let steps = steps @ [check_middle_step a target left right mid comparisons']
               in if a ! nat mid = target
                  then (steps @ [found_step a target mid comparisons'],
                        Returned (found_result a mid comparisons') None)
                  else if a ! nat mid < target
                  then search_loop a target (mid + 1) right comparisons'
                         (steps @ [search_right_step a target (mid + 1) right mid comparisons'])
                  else search_loop a target left (mid - 1) comparisons'
                         (steps @ [search_left_step a target left (mid - 1) mid comparisons'])))
      else (steps @ [not_found_step a target comparisons'],
            Returned (not_found_result comparisons') None))"
  by pat_completeness auto

termination
  by (relation "measure (\<lambda>(a, target, left, right, comparisons', steps). nat (right - left + 1))")
     auto

declare search_loop.simps [simp del]

definition BinarySearch_Execute :: "dyn \<Rightarrow> params \<Rightarrow> run" where
  "BinarySearch_Execute input parameters =
     (case input_array input parameters of
        Stop out \<Rightarrow> ([], out)
      | Go_on arr0 \<Rightarrow>
          (let target = (case assert_int (parameters ''target'') of Some t \<Rightarrow> t | None \<Rightarrow> 5);
               a = sort arr0
           in search_loop a target 0 (int (length a) - 1) 0 [search_initialize_step a target]))"

section \<open>Quick sort\<close>

text \<open>
  \<^verbatim>\<open>QuickSort.Execute\<close> with \<^verbatim>\<open>quickSort\<close> and \<^verbatim>\<open>partition\<close>. \<^verbatim>\<open>low\<close>, \<^verbatim>\<open>high\<close>,
  \<^verbatim>\<open>i\<close> and \<^verbatim>\<open>j\<close> are Go ints (\<^verbatim>\<open>i\<close> starts at \<open>low - 1\<close>, \<^verbatim>\<open>high\<close> at \<open>-1\<close> for the
  empty slice). \<^verbatim>\<open>partition\<close> is called with \<open>0 \<le> low < high < len(arr)\<close> only and
  touches no index outside \<open>low\<close> to \<open>high\<close>; \<^verbatim>\<open>(high-low)/2\<close> is taken of a positive
  number. The slice and the steps reported so far are passed along; the step number is a
  value parameter of \<^verbatim>\<open>partition\<close>, so what \<^verbatim>\<open>partition\<close> adds to it is lost to its caller.
\<close>

definition quick_initialize_step :: "int list \<Rightarrow> string \<Rightarrow> ExecutionStep" where
  "quick_initialize_step a pivotStrategy =
     \<lparr>StepNumber = 0, Action = ''initialize'',
      Data = [(''array'', DIntSlice a), (''pivot_strategy'', DString pivotStrategy)],
      Message = ''Starting Quick Sort''\<rparr>"

definition select_pivot_step :: "int \<Rightarrow> int list \<Rightarrow> int \<Rightarrow> int \<Rightarrow> int \<Rightarrow> int \<Rightarrow> ExecutionStep" where
  "select_pivot_step stepNumber' a pivotIndex pivot low high =
     \<lparr>StepNumber = stepNumber', Action = ''select_pivot'',
      Data = [(''array'', DIntSlice a), (''pivot_index'', DInt pivotIndex),
              (''pivot_value'', DInt pivot), (''low'', DInt low), (''high'', DInt high)],
      Message = ''Selected pivot: '' @ fmt_d pivot @ '' at index '' @ fmt_d pivotIndex\<rparr>"

definition compare_pivot_step :: "int \<Rightarrow> int list \<Rightarrow> int \<Rightarrow> int \<Rightarrow> int \<Rightarrow> ExecutionStep" where
  "compare_pivot_step stepNumber' a pivot j i =
     \<lparr>StepNumber = stepNumber', Action = ''compare_pivot'',
      Data = [(''array'', DIntSlice a), (''pivot_value'', DInt pivot),
              (''current'', DInt (a ! nat j)), (''j'', DInt j), (''i'', DInt i)],
      Message = ''Comparing '' @ fmt_d (a ! nat j) @ '' with pivot '' @ fmt_d pivot\<rparr>"

definition swap_partition_step :: "int \<Rightarrow> int list \<Rightarrow> int \<Rightarrow> int \<Rightarrow> int \<Rightarrow> ExecutionStep" where
  "swap_partition_step stepNumber' a pivot i j =
     \<lparr>StepNumber = stepNumber', Action = ''swap_partition'',
      Data = [(''array'', DIntSlice a), (''swapped'', DIntSlice [i, j]),
              (''pivot_value'', DInt pivot), (''i'', DInt i), (''j'', DInt j)],
      Message = ''Swapped '' @ fmt_d (a ! nat j) @ '' and '' @ fmt_d (a ! nat i)\<rparr>"

definition pivot_positioned_step :: "int \<Rightarrow> int list \<Rightarrow> int \<Rightarrow> int \<Rightarrow> ExecutionStep" where
  "pivot_positioned_step stepNumber' a pivotIndex pivot =
     \<lparr>StepNumber = stepNumber', Action = ''pivot_positioned'',
      Data = [(''array'', DIntSlice a), (''pivot_index'', DInt pivotIndex),
              (''pivot_value'', DInt pivot), (''partitioned'', DBool True)],
      Message = ''Pivot '' @ fmt_d pivot @ '' positioned at index '' @ fmt_d pivotIndex\<rparr>"

definition quick_complete_step :: "int list \<Rightarrow> ExecutionStep" where
  "quick_complete_step a =
     \<lparr>StepNumber = - 1, Action = ''complete'',
      Data = [(''array'', DIntSlice a), (''sorted'', DBool True)],
      Message = ''Quick Sort completed''\<rparr>"

text \<open>The loop of \<^verbatim>\<open>partition\<close> (lines 160 to 195); it returns \<^verbatim>\<open>i\<close>, the step number, the
  slice and the steps.\<close>

function partition_loop ::
  "int \<Rightarrow> int \<Rightarrow> int \<Rightarrow> int \<Rightarrow> int \<Rightarrow> int list \<Rightarrow> ExecutionStep list
     \<Rightarrow> int \<times> int \<times> int list \<times> ExecutionStep list" where
  "partition_loop pivot high j i stepNumber' a steps =
     (if j < high then
        (let steps = steps @ [compare_pivot_step stepNumber' a pivot j i];
             stepNumber' = stepNumber' + 1
         in if a ! nat j \<le> pivot then
              (let i = i + 1;
                   a = a[nat i := a ! nat j, nat j := a ! nat i];
                   steps = steps @ [swap_partition_step stepNumber' a pivot i j];
                   stepNumber' = stepNumber' + 1
               in partition_loop pivot high (j + 1) i stepNumber' a steps)
            else partition_loop pivot high (j + 1) i stepNumber' a steps)
      else (i, stepNumber', a, steps))"
  by pat_completeness auto
termination
  by (relation "measure (\<lambda>(pivot, high, j, i, stepNumber', a, steps). nat (high - j))") auto

declare partition_loop.simps [simp del]

text \<open>\<^verbatim>\<open>partition\<close>: the \<^verbatim>\<open>switch\<close> on the strategy, the pivot moved to the end, the loop,
  and the pivot moved to its place \<^verbatim>\<open>i+1\<close>, which is returned.\<close>

definition partition' ::
  "string \<Rightarrow> int \<Rightarrow> int \<Rightarrow> int \<Rightarrow> int list \<Rightarrow> ExecutionStep list
     \<Rightarrow> int \<times> int list \<times> ExecutionStep list" where
  "partition' pivotStrategy low high stepNumber' a steps =
     (let pivotIndex = (if pivotStrategy = ''first'' then low
                        else if pivotStrategy = ''last'' then high
                        else if pivotStrategy = ''middle'' then low + (high - low) div 2
                        else low + (high - low) div 2);
          pivot = a ! nat pivotIndex;
          steps = steps @ [select_pivot_step stepNumber' a pivotIndex pivot low high];
          stepNumber' = stepNumber' + 1;
          a = a[nat pivotIndex := a ! nat high, nat high := a ! nat pivotIndex];
          i = low - 1
      in case partition_loop pivot high low i stepNumber' a steps of
           (i, stepNumber', a, steps) \<Rightarrow>
             (let a = a[nat (i + 1) := a ! nat high, nat high := a ! nat (i + 1)];
                  steps = steps @ [pivot_positioned_step stepNumber' a (i + 1) pivot]
              in (i + 1, a, steps)))"

text \<open>The index that \<^verbatim>\<open>partition\<close> returns lies between \<open>low\<close> and \<open>high\<close>, which is why
  the recursion of \<^verbatim>\<open>quickSort\<close> ends.\<close>

lemma partition_loop_index:
  "j \<le> high \<Longrightarrow>
   i \<le> fst (partition_loop pivot high j i stepNumber' a steps) \<and>
   fst (partition_loop pivot high j i stepNumber' a steps) \<le> i + (high - j)"
proof (induction pivot high j i stepNumber' a steps rule: partition_loop.induct)
  case (1 pivot high j i stepNumber' a steps)
  show ?case
  proof (cases "j < high")
    case True
    show ?thesis
    proof (cases "a ! nat j \<le> pivot")
      case le: True
      then show ?thesis
        using "1.IH"(1) [OF True refl refl le refl refl refl refl] True
        by (subst (1 2) partition_loop.simps) (simp add: Let_def)
    next
      case gt: False
      then show ?thesis
        using "1.IH"(2) [OF True refl refl gt] True
        by (subst (1 2) partition_loop.simps) (simp add: Let_def)
    qed
  next
    case False
    then show ?thesis using "1.prems" by (subst (1 2) partition_loop.simps) simp
  qed
qed

lemma partition_index:
  assumes "low \<le> high"
  shows "low \<le> fst (partition' pivotStrategy low high stepNumber' a steps)
       \<and> fst (partition' pivotStrategy low high stepNumber' a steps) \<le> high"
proof -
  obtain pivot sn a0 st0 where
    "fst (partition' pivotStrategy low high stepNumber' a steps)
       = fst (partition_loop pivot high low (low - 1) sn a0 st0) + 1"
    by (simp add: partition'_def Let_def case_prod_beta)
  then show ?thesis
    using partition_loop_index [OF assms, of "low - 1" pivot sn a0 st0] by simp
qed

text \<open>\<^verbatim>\<open>quickSort\<close> returns the step number; the slice and the steps come with it.\<close>

function quickSort ::
  "string \<Rightarrow> int \<Rightarrow> int \<Rightarrow> int \<Rightarrow> int list \<Rightarrow> ExecutionStep list
     \<Rightarrow> int \<times> int list \<times> ExecutionStep list" where
  "quickSort pivotStrategy low high stepNumber' a steps =
     (if low < high then
        (case partition' pivotStrategy low high stepNumber' a steps of
           (pivotIndex, a, steps) \<Rightarrow>
             (let stepNumber' = stepNumber' + 1
              in case quickSort pivotStrategy low (pivotIndex - 1) stepNumber' a steps of
                   (stepNumber', a, steps) \<Rightarrow>
                     quickSort pivotStrategy (pivotIndex + 1) high stepNumber' a steps))
      else (stepNumber', a, steps))"
  by pat_completeness auto
termination
proof (relation "measure (\<lambda>(pivotStrategy, low, high, stepNumber', a, steps). nat (high - low))",
       goal_cases)
  case 1
  show ?case by simp
next
  case (2 pivotStrategy low high stepNumber' a steps x1 x2 x1a x2a x)
  then have "x1 = fst (partition' pivotStrategy low high stepNumber' a steps)"
    by (metis fst_conv)
  then show ?case
    using partition_index [of low high pivotStrategy stepNumber' a steps] 2(1) by simp
next
  case (3 pivotStrategy low high stepNumber' a steps x1 x2 x1a x2a x xa y xb yb)
  then have "x1 = fst (partition' pivotStrategy low high stepNumber' a steps)"
    by (metis fst_conv)
  then show ?case
    using partition_index [of low high pivotStrategy stepNumber' a steps] 3(1) by simp
qed

declare quickSort.simps [simp del]

text \<open>\<^verbatim>\<open>Execute\<close> sorts a copy of the array (\<^verbatim>\<open>sortedArr\<close>) and returns the copy.\<close>

definition QuickSort_Execute :: "dyn \<Rightarrow> params \<Rightarrow> run" where
  "QuickSort_Execute input parameters =
     (case input_array input parameters of
        Stop out \<Rightarrow> ([], out)
      | Go_on arr0 \<Rightarrow>
          (let pivotStrategy = (case assert_string (parameters ''pivot_strategy'') of
                                  Some strategy \<Rightarrow> strategy | None \<Rightarrow> ''middle'');
               steps = [quick_initialize_step arr0 pivotStrategy];
               sortedArr = arr0
           in case quickSort pivotStrategy 0 (int (length sortedArr) - 1) 1 sortedArr steps of
                (stepNumber', sortedArr, steps) \<Rightarrow>
                  (steps @ [quick_complete_step sortedArr],
                   Returned (DIntSlice sortedArr) None)))"

section \<open>Parameter validation\<close>

text \<open>
  The metadata of the ten algorithms that \<^verbatim>\<open>registerAlgorithms\<close> registers (the parameter
  lists of the \<^verbatim>\<open>New...\<close> constructors) and their \<^verbatim>\<open>ValidateParameters\<close> methods. A
  validator returns \<open>None\<close> for Go's nil error and the error's message otherwise.
\<close>

definition BubbleSort_metadata :: Algorithm where
  "BubbleSort_metadata =
     \<lparr>ID = ''bubble_sort'', Category = ''sorting'',
      Parameters =
        [\<lparr>Name = ''array_size'', Type = ''int'', Default = DInt 10,
          Min' = Some 3, Max' = Some 100, Required = True\<rparr>,
         \<lparr>Name = ''show_comparisons'', Type = ''bool'', Default = DBool True,
          Min' = None, Max' = None, Required = False\<rparr>]\<rparr>"

definition MergeSort_metadata :: Algorithm where
  "MergeSort_metadata =
     \<lparr>ID = ''merge_sort'', Category = ''sorting'',
      Parameters =
        [\<lparr>Name = ''array_size'', Type = ''int'', Default = DInt 10,
          Min' = Some 3, Max' = Some 100, Required = True\<rparr>,
         \<lparr>Name = ''show_divisions'', Type = ''bool'', Default = DBool True,
          Min' = None, Max' = None, Required = False\<rparr>]\<rparr>"

definition QuickSort_metadata :: Algorithm where
  "QuickSort_metadata =
     \<lparr>ID = ''quick_sort'', Category = ''sorting'',
      Parameters =
        [\<lparr>Name = ''array_size'', Type = ''int'', Default = DInt 10,
          Min' = Some 3, Max' = Some 100, Required = True\<rparr>,
         \<lparr>Name = ''pivot_strategy'', Type = ''string'', Default = DString ''middle'',
          Min' = None, Max' = None, Required = False\<rparr>]\<rparr>"

definition HeapSort_metadata :: Algorithm where
  "HeapSort_metadata =
     \<lparr>ID = ''heap_sort'', Category = ''sorting'',
      Parameters =
        [\<lparr>Name = ''array_size'', Type = ''int'', Default = DInt 10,
          Min' = Some 3, Max' = Some 100, Required = True\<rparr>,
         \<lparr>Name = ''show_heap_structure'', Type = ''bool'', Default = DBool True,
          Min' = None, Max' = None, Required = False\<rparr>]\<rparr>"

definition CountingSort_metadata :: Algorithm where
  "CountingSort_metadata =
     \<lparr>ID = ''counting_sort'', Category = ''sorting'',
      Parameters =
        [\<lparr>Name = ''array_size'', Type = ''int'', Default = DInt 10,
          Min' = Some 3, Max' = Some 50, Required = True\<rparr>,
         \<lparr>Name = ''max_value'', Type = ''int'', Default = DInt 20,
          Min' = Some 5, Max' = Some 100, Required = True\<rparr>]\<rparr>"

definition LinearSearch_metadata :: Algorithm where
  "LinearSearch_metadata =
     \<lparr>ID = ''linear_search'', Category = ''searching'',
      Parameters =
        [\<lparr>Name = ''array_size'', Type = ''int'', Default = DInt 10,
          Min' = Some 3, Max' = Some 100, Required = True\<rparr>,
         \<lparr>Name = ''target'', Type = ''int'', Default = DInt 5,
          Min' = None, Max' = None, Required = True\<rparr>]\<rparr>"

definition BinarySearch_metadata :: Algorithm where
  "BinarySearch_metadata =
     \<lparr>ID = ''binary_search'', Category = ''searching'',
      Parameters =
        [\<lparr>Name = ''array_size'', Type = ''int'', Default = DInt 10,
          Min' = Some 3, Max' = Some 100, Required = True\<rparr>,
         \<lparr>Name = ''target'', Type = ''int'', Default = DInt 5,
          Min' = None, Max' = None, Required = True\<rparr>]\<rparr>"

definition DFS_metadata :: Algorithm where
  "DFS_metadata =
     \<lparr>ID = ''dfs'', Category = ''searching'',
      Parameters =
        [\<lparr>Name = ''graph_size'', Type = ''int'', Default = DInt 6,
          Min' = Some 3, Max' = Some 20, Required = True\<rparr>,
         \<lparr>Name = ''start_node'', Type = ''int'', Default = DInt 0,
          Min' = Some 0, Max' = Some 19, Required = True\<rparr>,
         \<lparr>Name = ''target_node'', Type = ''int'', Default = DInt 5,
          Min' = Some 0, Max' = Some 19, Required = True\<rparr>]\<rparr>"

definition BFS_metadata :: Algorithm where
  "BFS_metadata =
     \<lparr>ID = ''bfs'', Category = ''searching'',
      Parameters =
        [\<lparr>Name = ''graph_size'', Type = ''int'', Default = DInt 6,
          Min' = Some 3, Max' = Some 20, Required = True\<rparr>,
         \<lparr>Name = ''start_node'', Type = ''int'', Default = DInt 0,
          Min' = Some 0, Max' = Some 19, Required = True\<rparr>,
         \<lparr>Name = ''target_node'', Type = ''int'', Default = DInt 5,
          Min' = Some 0, Max' = Some 19, Required = True\<rparr>]\<rparr>"

definition HashLookup_metadata :: Algorithm where
  "HashLookup_metadata =
     \<lparr>ID = ''hash_lookup'', Category = ''searching'',
      Parameters =
        [\<lparr>Name = ''table_size'', Type = ''int'', Default = DInt 10,
          Min' = Some 5, Max' = Some 50, Required = True\<rparr>,
         \<lparr>Name = ''key'', Type = ''string'', Default = DString ''key5'',
          Min' = None, Max' = None, Required = True\<rparr>]\<rparr>"

definition BubbleSort_ValidateParameters :: "params \<Rightarrow> string option" where
  "BubbleSort_ValidateParameters parameters =
     (case assert_int (parameters ''array_size'') of
        Some arraySize \<Rightarrow>
          if arraySize < 3 \<or> arraySize > 100
          then Some ''array_size must be between 3 and 100'' else None
      | None \<Rightarrow> None)"

definition MergeSort_ValidateParameters :: "params \<Rightarrow> string option" where
  "MergeSort_ValidateParameters parameters =
     (case assert_int (parameters ''array_size'') of
        Some arraySize \<Rightarrow>
          if arraySize < 3 \<or> arraySize > 100
          then Some ''array_size must be between 3 and 100'' else None
      | None \<Rightarrow> None)"

text \<open>The loop over \<^verbatim>\<open>validStrategies\<close>, which stops at the first equal entry.\<close>

fun valid_strategy :: "string list \<Rightarrow> string \<Rightarrow> bool" where
  "valid_strategy [] strategy = False"
| "valid_strategy (s # rest) strategy = (if s = strategy then True else valid_strategy rest strategy)"

definition QuickSort_ValidateParameters :: "params \<Rightarrow> string option" where
  "QuickSort_ValidateParameters parameters =
     (case (case assert_int (parameters ''array_size'') of
              Some arraySize \<Rightarrow>
                if arraySize < 3 \<or> arraySize > 100
                then Some ''array_size must be between 3 and 100'' else None
            | None \<Rightarrow> None) of
        Some err \<Rightarrow> Some err
      | None \<Rightarrow>
          (case assert_string (parameters ''pivot_strategy'') of
             Some strategy \<Rightarrow>
               if \<not> valid_strategy [''first'', ''last'', ''middle''] strategy
               then Some ''pivot_strategy must be one of: first, last, middle'' else None
           | None \<Rightarrow> None))"

definition HeapSort_ValidateParameters :: "params \<Rightarrow> string option" where
  "HeapSort_ValidateParameters parameters =
     (case assert_int (parameters ''array_size'') of
        Some arraySize \<Rightarrow>
          if arraySize < 3 \<or> arraySize > 100
          then Some ''array_size must be between 3 and 100'' else None
      | None \<Rightarrow> None)"

definition CountingSort_ValidateParameters :: "params \<Rightarrow> string option" where
  "CountingSort_ValidateParameters parameters =
     (case (case assert_int (parameters ''array_size'') of
              Some arraySize \<Rightarrow>
                if arraySize < 3 \<or> arraySize > 50
                then Some ''array_size must be between 3 and 50'' else None
            | None \<Rightarrow> None) of
        Some err \<Rightarrow> Some err
      | None \<Rightarrow>
          (case assert_int (parameters ''max_value'') of
             Some maxValue \<Rightarrow>
               if maxValue < 5 \<or> maxValue > 100
               then Some ''max_value must be between 5 and 100'' else None
           | None \<Rightarrow> None))"

definition LinearSearch_ValidateParameters :: "params \<Rightarrow> string option" where
  "LinearSearch_ValidateParameters parameters =
     (case assert_int (parameters ''array_size'') of
        Some arraySize \<Rightarrow>
          if arraySize < 3 \<or> arraySize > 100
          then Some ''array_size must be between 3 and 100'' else None
      | None \<Rightarrow> None)"

definition BinarySearch_ValidateParameters :: "params \<Rightarrow> string option" where
  "BinarySearch_ValidateParameters parameters =
     (case assert_int (parameters ''array_size'') of
        Some arraySize \<Rightarrow>
          if arraySize < 3 \<or> arraySize > 100
          then Some ''array_size must be between 3 and 100'' else None
      | None \<Rightarrow> None)"

definition DFS_ValidateParameters :: "params \<Rightarrow> string option" where
  "DFS_ValidateParameters parameters =
     (case assert_int (parameters ''graph_size'') of
        Some graphSize \<Rightarrow>
          if graphSize < 3 \<or> graphSize > 20
          then Some ''graph_size must be between 3 and 20'' else None
      | None \<Rightarrow> None)"

definition BFS_ValidateParameters :: "params \<Rightarrow> string option" where
  "BFS_ValidateParameters parameters =
     (case assert_int (parameters ''graph_size'') of
        Some graphSize \<Rightarrow>
          if graphSize < 3 \<or> graphSize > 20
          then Some ''graph_size must be between 3 and 20'' else None
      | None \<Rightarrow> None)"

definition HashLookup_ValidateParameters :: "params \<Rightarrow> string option" where
  "HashLookup_ValidateParameters parameters =
     (case assert_int (parameters ''table_size'') of
        Some tableSize \<Rightarrow>
          if tableSize < 5 \<or> tableSize > 50
          then Some ''table_size must be between 5 and 50'' else None
      | None \<Rightarrow> None)"

text \<open>What \<^verbatim>\<open>registerAlgorithms\<close> registers, in its order, each algorithm by its metadata
  and its validator.\<close>

definition registered_validators :: "(Algorithm \<times> (params \<Rightarrow> string option)) list" where
  "registered_validators =
     [(BubbleSort_metadata, BubbleSort_ValidateParameters),
      (MergeSort_metadata, MergeSort_ValidateParameters),
      (QuickSort_metadata, QuickSort_ValidateParameters),
      (HeapSort_metadata, HeapSort_ValidateParameters),
      (CountingSort_metadata, CountingSort_ValidateParameters),
      (LinearSearch_metadata, LinearSearch_ValidateParameters),
      (BinarySearch_metadata, BinarySearch_ValidateParameters),
      (DFS_metadata, DFS_ValidateParameters),
      (BFS_metadata, BFS_ValidateParameters),
      (HashLookup_metadata, HashLookup_ValidateParameters)]"

text \<open>The spec's reading of a declaration: a value is of the declared kind when its dynamic
  type is the one the parameter's \<^verbatim>\<open>Type\<close> names (\<open>int\<close>, \<open>string\<close>, \<open>bool\<close> or
  \<open>array\<close>, by the comment on the field).\<close>

fun has_kind :: "string \<Rightarrow> dyn \<Rightarrow> bool" where
  "has_kind kind (DInt n) = (kind = ''int'')"
| "has_kind kind (DBool b) = (kind = ''bool'')"
| "has_kind kind (DString s) = (kind = ''string'')"
| "has_kind kind (DIntSlice xs) = (kind = ''array'')"
| "has_kind kind (DSlice xs) = (kind = ''array'')"
| "has_kind kind _ = False"

section \<open>Registry and orchestrator\<close>

text \<open>
  An \<^verbatim>\<open>AlgorithmExecutor\<close> is its three methods. \<^verbatim>\<open>Execute\<close> gives a run: the steps it
  hands to the callback, in call order, and how the call ends. The registry is the map
  from ids to executors (its mutex guards single reads and writes and is left out).
\<close>

record executor =
  GetMetadata :: Algorithm
  Execute :: "dyn \<Rightarrow> params \<Rightarrow> run"
  ValidateParameters :: "params \<Rightarrow> string option"

type_synonym Registry = "string \<Rightarrow> executor option"

definition RegisterAlgorithm :: "Registry \<Rightarrow> executor \<Rightarrow> Registry" where
  "RegisterAlgorithm r algorithm = r(ID (GetMetadata algorithm) \<mapsto> algorithm)"

definition GetAlgorithm :: "Registry \<Rightarrow> string \<Rightarrow> executor option" where
  "GetAlgorithm r id' = r id'"

definition NewBubbleSort :: executor where
  "NewBubbleSort = \<lparr>GetMetadata = BubbleSort_metadata, Execute = BubbleSort_Execute,
                    ValidateParameters = BubbleSort_ValidateParameters\<rparr>"

definition NewBinarySearch :: executor where
  "NewBinarySearch = \<lparr>GetMetadata = BinarySearch_metadata, Execute = BinarySearch_Execute,
                      ValidateParameters = BinarySearch_ValidateParameters\<rparr>"

text \<open>A registry holding the two executors whose \<^verbatim>\<open>Execute\<close> is modelled above.\<close>

definition sort_and_search_registry :: Registry where
  "sort_and_search_registry =
     RegisterAlgorithm (RegisterAlgorithm Map.empty NewBubbleSort) NewBinarySearch"

definition NewQuickSort :: executor where
  "NewQuickSort = \<lparr>GetMetadata = QuickSort_metadata, Execute = QuickSort_Execute,
                   ValidateParameters = QuickSort_ValidateParameters\<rparr>"

text \<open>The same registry with quick sort registered as well.\<close>

definition sorting_and_search_registry :: Registry where
  "sorting_and_search_registry = RegisterAlgorithm sort_and_search_registry NewQuickSort"

text \<open>
  What \<^verbatim>\<open>json.Decode\<close> can store in an \<^verbatim>\<open>interface{}\<close>: nil, a \<^verbatim>\<open>bool\<close>, a \<^verbatim>\<open>float64\<close>,
  a \<^verbatim>\<open>string\<close>, an \<^verbatim>\<open>[]interface{}\<close> or a \<^verbatim>\<open>map[string]interface{}\<close> of such values;
  never an \<^verbatim>\<open>int\<close> or an \<^verbatim>\<open>[]int\<close>.
\<close>

fun decoded_value :: "dyn \<Rightarrow> bool" where
  "decoded_value DNil = True"
| "decoded_value (DBool b) = True"
| "decoded_value (DFloat64 x) = True"
| "decoded_value (DString s) = True"
| "decoded_value (DSlice xs) = list_all decoded_value xs"
| "decoded_value (DMap kvs) = list_all decoded_value (map snd kvs)"
| "decoded_value (DInt n) = False"
| "decoded_value (DIntSlice xs) = False"

text \<open>
  The decoded request body (\<open>None\<close> when \<^verbatim>\<open>json.Decode\<close> fails; a body without
  \<^verbatim>\<open>parameters\<close> leaves the nil map, which reads as the empty one). The decoder makes a
  \<^verbatim>\<open>float64\<close> of every JSON number and an \<^verbatim>\<open>[]interface{}\<close> of every JSON array; the
  request of the model may hold any value, as a caller of the methods in Go may pass any.
  Then the execution context \<^verbatim>\<open>types.AlgorithmExecution\<close>, the message handed to
  \<^verbatim>\<open>Hub.Broadcast\<close> (as it is before \<^verbatim>\<open>json.Marshal\<close>, which cannot fail on the values
  of \<open>dyn\<close>), and the HTTP response: the status code with either the text given to
  \<^verbatim>\<open>http.Error\<close> or the encoded JSON object (status 200, as no other is written).
\<close>

record request =
  req_Parameters :: params
  req_Input :: dyn

record AlgorithmExecution =
  exec_ID :: string
  AlgorithmID :: string
  exec_Parameters :: params
  Input :: dyn
  Output :: dyn
  Steps :: "ExecutionStep list"
  Status :: ExecutionStatus

datatype message_data = StepData ExecutionStep | MapData "(string \<times> dyn) list"

record WebSocketMessage =
  msg_Type :: string
  msg_Data :: message_data

datatype http_body = Text string | Json "(string \<times> dyn) list"

record response =
  status_code :: nat
  body :: http_body

definition http_Error :: "string \<Rightarrow> nat \<Rightarrow> response" where
  "http_Error error code = \<lparr>status_code = code, body = Text error\<rparr>"

text \<open>
  \<^verbatim>\<open>ExecuteAlgorithm\<close>. \<open>now\<close> is what \<^verbatim>\<open>time.Now().UnixNano()\<close> returns while the
  request is handled. The result is the response and, when the handler reaches
  \<^verbatim>\<open>go h.executeAlgorithmAsync(algorithm, execution)\<close>, the executor and the execution
  context handed to the new goroutine.
\<close>

record handled =
  resp :: response
  spawned :: "(executor \<times> AlgorithmExecution) option"

definition ExecuteAlgorithm ::
  "Registry \<Rightarrow> int \<Rightarrow> string \<Rightarrow> request option \<Rightarrow> handled" where
  "ExecuteAlgorithm registry now algorithmID decoded =
     (case GetAlgorithm registry algorithmID of
        None \<Rightarrow> \<lparr>resp = http_Error ''Algorithm not found'' 404, spawned = None\<rparr>
      | Some algorithm \<Rightarrow>
          (case decoded of
             None \<Rightarrow> \<lparr>resp = http_Error ''Invalid request body'' 400, spawned = None\<rparr>
           | Some request \<Rightarrow>
               (case ValidateParameters algorithm (req_Parameters request) of
                  Some err \<Rightarrow>
                    \<lparr>resp = http_Error (''Invalid parameters: '' @ err) 400, spawned = None\<rparr>
                | None \<Rightarrow>
                    (let executionID = ''exec_'' @ fmt_d now;
                         execution = \<lparr>exec_ID = executionID, AlgorithmID = algorithmID,
                                      exec_Parameters = req_Parameters request,
                                      Input = req_Input request, Output = DNil,
                                      Steps = [], Status = StatusRunning\<rparr>
                     in \<lparr>resp = \<lparr>status_code = 200,
                                  body = Json [(''execution_id'', DString executionID),
                                               (''status'', DString ''started''),
                                               (''message'', DString ''Algorithm execution started'')]\<rparr>,
                         spawned = Some (algorithm, execution)\<rparr>))))"

text \<open>
  \<^verbatim>\<open>executeAlgorithmAsync\<close>. The state of the goroutine is the execution context, the
  messages it has handed to \<^verbatim>\<open>Hub.Broadcast\<close> so far, and, for the record, every value
  it has assigned to \<^verbatim>\<open>execution.Status\<close>, in order. A panic inside \<^verbatim>\<open>Execute\<close> is not
  recovered: the goroutine ends there, with the steps reported so far.
  The closure \<^verbatim>\<open>stepCallback\<close> touches nothing that \<^verbatim>\<open>Execute\<close> reads, so running it
  over the steps of the run in order is running it from inside \<^verbatim>\<open>Execute\<close>.
\<close>

record async_state =
  execution :: AlgorithmExecution
  broadcasts :: "WebSocketMessage list"
  status_writes :: "ExecutionStatus list"
  panicked :: bool

definition Broadcast :: "WebSocketMessage \<Rightarrow> async_state \<Rightarrow> async_state" where
  "Broadcast message s = s\<lparr>broadcasts := broadcasts s @ [message]\<rparr>"

definition assign_Status :: "ExecutionStatus \<Rightarrow> async_state \<Rightarrow> async_state" where
  "assign_Status v s =
     s\<lparr>execution := (execution s)\<lparr>Status := v\<rparr>, status_writes := status_writes s @ [v]\<rparr>"

definition async_stepCallback :: "ExecutionStep \<Rightarrow> async_state \<Rightarrow> async_state" where
  "async_stepCallback step s =
     (let s = s\<lparr>execution := (execution s)\<lparr>Steps := Steps (execution s) @ [step]\<rparr>\<rparr>;
          message = \<lparr>msg_Type = ''execution_step'', msg_Data = StepData step\<rparr>
      in Broadcast message s)"

definition executeAlgorithmAsync :: "executor \<Rightarrow> AlgorithmExecution \<Rightarrow> async_state" where
  "executeAlgorithmAsync algorithm execution0 =
     (let s = \<lparr>execution = execution0, broadcasts = [], status_writes = [], panicked = False\<rparr>
      in case Execute algorithm (Input execution0) (exec_Parameters execution0) of
           (steps, Panicked reason) \<Rightarrow> (fold async_stepCallback steps s)\<lparr>panicked := True\<rparr>
         | (steps, Returned output err) \<Rightarrow>
             (let s = fold async_stepCallback steps s;
                  s = assign_Status StatusCompleted s;
                  s = s\<lparr>execution := (execution s)\<lparr>Output := output\<rparr>\<rparr>
              in case err of
                   Some reason \<Rightarrow>
                     (let s = assign_Status StatusError s;
                          messageData = [(''execution_id'', DString (exec_ID (execution s))),
                                         (''error'', DString reason)]
                      in Broadcast \<lparr>msg_Type = ''execution_error'',
                                    msg_Data = MapData messageData\<rparr> s)
                 | None \<Rightarrow>
                     (let messageData = [(''execution_id'', DString (exec_ID (execution s))),
                                         (''output'', output),
                                         (''steps_count'',
                                            DInt (int (length (Steps (execution s)))))]
                      in Broadcast \<lparr>msg_Type = ''execution_complete'',
                                    msg_Data = MapData messageData\<rparr> s)))"

text \<open>A request from arrival to the end of its goroutine: the response, and the final state
  of the goroutine when one was started. \<open>hub_received\<close> is what the hub was handed.\<close>

definition serve :: "Registry \<Rightarrow> int \<Rightarrow> string \<Rightarrow> request option \<Rightarrow> response \<times> async_state option" where
  "serve registry now algorithmID decoded =
     (let h = ExecuteAlgorithm registry now algorithmID decoded
      in (resp h,
          case spawned h of
            None \<Rightarrow> None
          | Some (algorithm, execution0) \<Rightarrow> Some (executeAlgorithmAsync algorithm execution0)))"

definition hub_received :: "response \<times> async_state option \<Rightarrow> WebSocketMessage list" where
  "hub_received r = (case snd r of None \<Rightarrow> [] | Some s \<Rightarrow> broadcasts s)"

section \<open>Predicates and abbreviations of the proofs\<close>

text \<open>
  The invariant of one pass of bubble sort, at inner index \<open>j\<close> of the pass that ends at
  index \<open>m\<close>: the array keeps its length and its elements, the part behind \<open>m\<close> is as it
  was (\<open>D\<close>), the element at \<open>j\<close> is a largest one of the part before it, and as long
  as nothing was swapped the part up to \<open>j\<close> is in order.
\<close>

definition pass_inv :: "nat \<Rightarrow> int multiset \<Rightarrow> int list \<Rightarrow> nat \<Rightarrow> nat \<Rightarrow> bs_state \<Rightarrow> bool" where
  "pass_inv n M D m j s \<longleftrightarrow>
     length (arr s) = n \<and> mset (arr s) = M \<and> drop (m + 1) (arr s) = D \<and> j \<le> m \<and>
     (\<forall>k < j. arr s ! k \<le> arr s ! j) \<and>
     (\<not> swapped s \<longrightarrow> sorted (take (j + 1) (arr s)))"

text \<open>The invariant of the outer loop before pass \<open>i\<close>: the last \<open>i\<close> elements are in
  order and none of them is below an element before them.\<close>

definition tail_inv :: "nat \<Rightarrow> int multiset \<Rightarrow> nat \<Rightarrow> int list \<Rightarrow> bool" where
  "tail_inv n M i a \<longleftrightarrow>
     length a = n \<and> mset a = M \<and> sorted (drop (n - i) a) \<and>
     (\<forall>x \<in> set (take (n - i) a). \<forall>y \<in> set (drop (n - i) a). x \<le> y)"


text \<open>The flag \<^verbatim>\<open>showComparisons\<close>, the state in which \<^verbatim>\<open>BubbleSort.Execute\<close> enters its
  outer loop, and the state in which it leaves it.\<close>

definition showComparisons_of :: "params \<Rightarrow> bool" where
  "showComparisons_of parameters =
     (case assert_bool (parameters ''show_comparisons'') of Some show' \<Rightarrow> show' | None \<Rightarrow> True)"

definition bs_init :: "int list \<Rightarrow> bool \<Rightarrow> bs_state" where
  "bs_init arr0 sc = \<lparr>arr = arr0, comparisons = 0, swaps = 0, stepNumber = 1, swapped = False,
                    emitted = [initialize_step arr0 sc]\<rparr>"

definition bs_run :: "int list \<Rightarrow> bool \<Rightarrow> bs_state" where
  "bs_run xs sc = outer_loop (length xs) sc 0 (bs_init xs sc)"


text \<open>The two kinds of message that \<^verbatim>\<open>executeAlgorithmAsync\<close> builds: one for each step,
  and the last one, for an error or for the completion.\<close>

definition step_message :: "ExecutionStep \<Rightarrow> WebSocketMessage" where
  "step_message step = \<lparr>msg_Type = ''execution_step'', msg_Data = StepData step\<rparr>"

definition terminal_message :: "string \<Rightarrow> dyn \<Rightarrow> string option \<Rightarrow> nat \<Rightarrow> WebSocketMessage" where
  "terminal_message executionID output err steps_count =
     (case err of
        Some reason \<Rightarrow>
          \<lparr>msg_Type = ''execution_error'',
           msg_Data = MapData [(''execution_id'', DString executionID), (''error'', DString reason)]\<rparr>
      | None \<Rightarrow>
          \<lparr>msg_Type = ''execution_complete'',
           msg_Data = MapData [(''execution_id'', DString executionID), (''output'', output),
                               (''steps_count'', DInt (int steps_count))]\<rparr>)"

text \<open>A declared parameter lacks a usable value in a parameter map when its name is
  missing there or bound to a value of another kind than the declared one.\<close>

definition absent_or_wrong_kind :: "params \<Rightarrow> Parameter \<Rightarrow> bool" where
  "absent_or_wrong_kind parameters p =
     (case parameters (Name p) of None \<Rightarrow> True | Some v \<Rightarrow> \<not> has_kind (Type p) v)"

section \<open>Array generation: the generator returns the ascending array\<close>

lemma fill_loop_length: "length (fill_loop n i a) = length a"
  by (induction n i a rule: fill_loop.induct) (simp add: fill_loop.simps)

lemma fill_loop_nth:
  "k < length a \<Longrightarrow>
   fill_loop n i a ! k = (if i \<le> k \<and> k < n then int k + 1 else a ! k)"
proof (induction n i a rule: fill_loop.induct)
  case (1 n i a)
  show ?case
  proof (cases "i < n")
    case True
    then have "fill_loop n i a ! k = fill_loop n (i + 1) (a[i := int i + 1]) ! k"
      by (simp add: fill_loop.simps)
    also have "\<dots> = (if i + 1 \<le> k \<and> k < n then int k + 1 else (a[i := int i + 1]) ! k)"
      using "1.IH" [OF True] "1.prems" by simp
    also have "\<dots> = (if i \<le> k \<and> k < n then int k + 1 else a ! k)"
      using True "1.prems" by (auto simp: nth_list_update)
    finally show ?thesis .
  next
    case False
    then show ?thesis by (simp add: fill_loop.simps)
  qed
qed

lemma fill_loop_is_upto: "fill_loop n 0 (replicate n 0) = map (\<lambda>k. int k + 1) [0..<n]"
  by (rule nth_equalityI) (simp_all add: fill_loop_length fill_loop_nth)

lemma shuffle_loop_id: "shuffle_loop i a = a"
proof (induction i a rule: shuffle_loop.induct)
  case (1 i a)
  show ?case
  proof (cases "i > 0")
    case True
    have "shuffle_loop i a = shuffle_loop (i - 1) (a[i := a ! i, i := a ! i])"
      using True by (subst shuffle_loop.simps) simp
    also have "\<dots> = a[i := a ! i, i := a ! i]"
      using "1.IH" [OF True, of "i mod (i + 1)"] by simp
    also have "\<dots> = a" by simp
    finally show ?thesis .
  next
    case False
    then show ?thesis by (subst shuffle_loop.simps) simp
  qed
qed

lemma map_Suc_upto: "map (\<lambda>k. int k + 1) [0..<n] = [1..int n]"
proof (induction n)
  case 0
  show ?case by simp
next
  case (Suc n)
  have "[1..int (Suc n)] = [1..int n] @ [int n + 1]"
    using upto_rec2 [of 1 "int n + 1"] by (simp add: add.commute)
  with Suc show ?case by simp
qed

lemma generateRandomArray_eq:
  "0 \<le> n \<Longrightarrow> generateRandomArray n = Some [1..n]"
  by (simp add: generateRandomArray_def Let_def shuffle_loop_id fill_loop_is_upto map_Suc_upto)

lemma input_array_generated:
  "0 \<le> n \<Longrightarrow> parameters ''array_size'' = Some (DInt n) \<Longrightarrow>
   input_array DNil parameters = Go_on [1..n]"
  by (simp add: input_array_def generateRandomArray_eq)

lemma input_array_default:
  "assert_int (parameters ''array_size'') = None \<Longrightarrow>
   input_array DNil parameters = Go_on [1..10]"
  by (simp add: input_array_def generateRandomArray_eq)

section \<open>Bubble sort: the passes sort the array\<close>

lemma stepCallback_simps [simp]:
  "arr (stepCallback st s) = arr s"
  "comparisons (stepCallback st s) = comparisons s"
  "swaps (stepCallback st s) = swaps s"
  "stepNumber (stepCallback st s) = stepNumber s"
  "swapped (stepCallback st s) = swapped s"
  "emitted (stepCallback st s) = emitted s @ [st]"
  by (simp_all add: stepCallback_def)

lemma inner_body_arr:
  "arr (inner_body sc i j s) =
     (if arr s ! j > arr s ! (j + 1) then (arr s)[j := arr s ! (j + 1), j + 1 := arr s ! j]
      else arr s)"
  by (simp add: inner_body_def Let_def)

lemma inner_body_swapped:
  "swapped (inner_body sc i j s) = (swapped s \<or> arr s ! j > arr s ! (j + 1))"
  by (simp add: inner_body_def Let_def)

lemma inner_loop_rule:
  "P j s \<Longrightarrow>
   (\<And>j s. j < n - i - 1 \<Longrightarrow> P j s \<Longrightarrow> P (j + 1) (inner_body sc i j s)) \<Longrightarrow>
   j \<le> n - i - 1 \<Longrightarrow> P (n - i - 1) (inner_loop n sc i j s)"
proof (induction n sc i j s rule: inner_loop.induct)
  case (1 n sc i j s)
  show ?case
  proof (cases "j < n - i - 1")
    case True
    have "P (j + 1) (inner_body sc i j s)" using "1.prems"(1,2) True by blast
    then have "P (n - i - 1) (inner_loop n sc i (j + 1) (inner_body sc i j s))"
      using "1.IH" [OF True] "1.prems"(2) True by simp
    then show ?thesis using True by (subst inner_loop.simps) simp
  next
    case False
    then have "j = n - i - 1" using "1.prems"(3) by simp
    then show ?thesis using "1.prems"(1) by (subst inner_loop.simps) simp
  qed
qed

lemma pass_inv_step:
  assumes "pass_inv n M D m j s" and "j < m" and "m < n"
  shows "pass_inv n M D m (j + 1) (inner_body sc i j s)"
proof -
  let ?a = "arr s"
  from assms have len: "length ?a = n" and ms: "mset ?a = M" and dr: "drop (m + 1) ?a = D"
    and mx: "\<forall>k < j. ?a ! k \<le> ?a ! j" and so: "\<not> swapped s \<longrightarrow> sorted (take (j + 1) ?a)"
    by (simp_all add: pass_inv_def)
  have j1: "j + 1 < length ?a" and j0: "j < length ?a" using assms(2,3) len by simp_all
  show ?thesis
  proof (cases "?a ! j > ?a ! (j + 1)")
    case True
    let ?b = "?a[j := ?a ! (j + 1), j + 1 := ?a ! j]"
    have b: "arr (inner_body sc i j s) = ?b" using True by (simp add: inner_body_arr)
    have "mset ?b = mset ?a" using j0 j1 by (simp add: mset_swap)
    moreover have "drop (m + 1) ?b = drop (m + 1) ?a" using assms(2) by simp
    moreover have "\<forall>k < j + 1. ?b ! k \<le> ?b ! (j + 1)"
      using mx True j0 j1 by (auto simp: nth_list_update less_Suc_eq)
    ultimately show ?thesis using len ms dr assms(2) True
      by (simp add: pass_inv_def b inner_body_swapped)
  next
    case False
    have b: "arr (inner_body sc i j s) = ?a" using False by (simp add: inner_body_arr)
    have mx': "\<forall>k < j + 1. ?a ! k \<le> ?a ! (j + 1)"
      using mx False by (auto simp: less_Suc_eq intro: order_trans)
    have "sorted (take (j + 1 + 1) ?a)" if "\<not> swapped s"
    proof -
      have "take (j + 1 + 1) ?a = take (j + 1) ?a @ [?a ! (j + 1)]"
        using j1 by (simp add: take_Suc_conv_app_nth)
      moreover have "\<forall>x \<in> set (take (j + 1) ?a). x \<le> ?a ! (j + 1)"
        using mx' j1 by (auto simp: in_set_conv_nth)
      ultimately show ?thesis using so that by (simp add: sorted_append)
    qed
    then show ?thesis using len ms dr assms(2) False mx'
      by (simp add: pass_inv_def b inner_body_swapped)
  qed
qed

lemma inner_loop_pass:
  assumes "length (arr s) = n" and "i < n - 1"
  shows "pass_inv n (mset (arr s)) (drop (n - i) (arr s)) (n - i - 1) (n - i - 1)
           (inner_loop n sc i 0 s)"
proof -
  let ?m = "n - i - 1"
  have m: "?m < n" "?m + 1 = n - i" using assms(2) by simp_all
  have start: "pass_inv n (mset (arr s)) (drop (n - i) (arr s)) ?m 0 s"
    using assms m by (cases "arr s") (simp_all add: pass_inv_def)
  show ?thesis
  proof (rule inner_loop_rule [where P = "pass_inv n (mset (arr s)) (drop (n - i) (arr s)) ?m", OF start])
    fix j s' assume "j < ?m" "pass_inv n (mset (arr s)) (drop (n - i) (arr s)) ?m j s'"
    then show "pass_inv n (mset (arr s)) (drop (n - i) (arr s)) ?m (j + 1) (inner_body sc i j s')"
      using m(1) by (intro pass_inv_step)
  qed simp
qed

lemma tail_inv_sorted:
  assumes "tail_inv n M i a" and "sorted (take (n - i) a)"
  shows "sorted a"
proof -
  have "sorted (take (n - i) a @ drop (n - i) a)"
    using assms unfolding tail_inv_def sorted_append by blast
  then show ?thesis by simp
qed

lemma tail_inv_pass:
  assumes inv: "tail_inv n M i a" and i: "i < n - 1"
    and p: "pass_inv n (mset a) (drop (n - i) a) (n - i - 1) (n - i - 1) s'"
  shows "tail_inv n M (i + 1) (arr s') \<and> (\<not> swapped s' \<longrightarrow> sorted (arr s'))"
proof -
  define m where "m = n - i - 1"
  let ?b = "arr s'"
  have m: "m < n" "Suc m = n - i" "n - Suc i = m" using i by (simp_all add: m_def)
  from p have len: "length ?b = n" and ms: "mset ?b = mset a"
    and dr: "drop (n - i) ?b = drop (n - i) a"
    and mx: "\<forall>k < m. ?b ! k \<le> ?b ! m"
    and so: "\<not> swapped s' \<longrightarrow> sorted (take (n - i) ?b)"
    unfolding pass_inv_def m_def [symmetric] by (simp_all add: m(2))
  from inv have M: "mset a = M" and sd: "sorted (drop (n - i) a)"
    and cross: "\<forall>x \<in> set (take (n - i) a). \<forall>y \<in> set (drop (n - i) a). x \<le> y"
    by (simp_all add: tail_inv_def)
  have "mset (take (n - i) ?b) + mset (drop (n - i) ?b) = mset (take (n - i) a) + mset (drop (n - i) a)"
    using ms by (simp flip: mset_append)
  then have "mset (take (n - i) ?b) = mset (take (n - i) a)" using dr by simp
  then have st: "set (take (n - i) ?b) = set (take (n - i) a)" by (rule mset_eq_setD)
  have cross': "\<forall>x \<in> set (take (n - i) ?b). \<forall>y \<in> set (drop (n - i) ?b). x \<le> y"
    using cross st dr by simp
  have inv': "tail_inv n M i ?b"
    using len ms M sd dr cross' by (simp add: tail_inv_def)
  have fin: "\<not> swapped s' \<longrightarrow> sorted ?b"
    using tail_inv_sorted [OF inv'] so by blast
  have dm: "drop m ?b = ?b ! m # drop (n - i) ?b"
    using Cons_nth_drop_Suc [of m ?b] m len by simp
  have tk: "take (n - i) ?b = take m ?b @ [?b ! m]"
    using take_Suc_conv_app_nth [of m ?b] m len by simp
  have "\<forall>y \<in> set (drop (n - i) ?b). ?b ! m \<le> y" using cross' tk by simp
  then have "sorted (drop m ?b)" using dm sd dr by simp
  moreover have "\<forall>x \<in> set (take m ?b). \<forall>y \<in> set (drop m ?b). x \<le> y"
  proof (intro ballI)
    fix x y assume x: "x \<in> set (take m ?b)" and y: "y \<in> set (drop m ?b)"
    from x obtain k where k: "k < m" "x = ?b ! k"
      using len m by (auto simp: in_set_conv_nth)
    have "x \<in> set (take (n - i) ?b)" using x tk by simp
    then show "x \<le> y" using y dm cross' k mx by auto
  qed
  ultimately have "tail_inv n M (i + 1) ?b"
    using len ms M by (simp add: tail_inv_def m)
  then show ?thesis using fin by simp
qed

lemma outer_loop_sorted:
  "tail_inv n M i (arr s) \<Longrightarrow>
   sorted (arr (outer_loop n sc i s)) \<and> mset (arr (outer_loop n sc i s)) = M"
proof (induction n sc i s rule: outer_loop.induct)
  case (1 n sc i s)
  show ?case
  proof (cases "i < n - 1")
    case True
    define s1 where "s1 = (stepCallback (outer_loop_step i (s\<lparr>swapped := False\<rparr>)) (s\<lparr>swapped := False\<rparr>))
                           \<lparr>stepNumber := stepNumber (s\<lparr>swapped := False\<rparr>) + 1\<rparr>"
    define s2 where "s2 = inner_loop n sc i 0 s1"
    have a1: "arr s1 = arr s" by (simp add: s1_def)
    have len: "length (arr s1) = n" using "1.prems" by (simp add: a1 tail_inv_def)
    have p: "pass_inv n (mset (arr s)) (drop (n - i) (arr s)) (n - i - 1) (n - i - 1) s2"
      using inner_loop_pass [OF len True, of sc] by (simp add: s2_def a1)
    have inv2: "tail_inv n M (i + 1) (arr s2)"
      and srt: "\<not> swapped s2 \<Longrightarrow> sorted (arr s2)"
      using tail_inv_pass [OF "1.prems" True p] by simp_all
    have ms2: "mset (arr s2) = M" using inv2 by (simp add: tail_inv_def)
    have unf: "outer_loop n sc i s =
        (if \<not> swapped s2
         then (stepCallback (early_termination_step i s2) s2)\<lparr>stepNumber := stepNumber s2 + 1\<rparr>
         else outer_loop n sc (i + 1) s2)"
      using True by (subst outer_loop.simps) (simp add: Let_def s1_def s2_def)
    show ?thesis
    proof (cases "swapped s2")
      case False
      then show ?thesis using unf srt ms2 by simp
    next
      case sw: True
      have "sorted (arr (outer_loop n sc (i + 1) s2)) \<and> mset (arr (outer_loop n sc (i + 1) s2)) = M"
        using "1.IH" [OF True _ _ _ _ inv2] sw
        by (simp add: s1_def s2_def)
      then show ?thesis using unf sw by simp
    qed
  next
    case False
    then have le: "n - i \<le> 1" by simp
    have "sorted (take (n - i) (arr s))"
      using le by (cases "arr s"; cases "n - i") simp_all
    then have "sorted (arr s)" using tail_inv_sorted [OF "1.prems"] by simp
    then show ?thesis using False "1.prems" by (subst (1 2) outer_loop.simps) (simp add: tail_inv_def)
  qed
qed

lemma sorted_perm_of_sorted:
  "sorted (xs :: int list) \<Longrightarrow> sorted ys \<Longrightarrow> mset ys = mset xs \<Longrightarrow> ys = xs"
  using properties_for_sort by metis

subsection \<open>The steps are numbered from zero\<close>








lemma BubbleSort_Execute_run:
  assumes "input_array input parameters = Go_on xs"
  shows "BubbleSort_Execute input parameters =
           (emitted (bs_run xs (showComparisons_of parameters))
              @ [complete_step (bs_run xs (showComparisons_of parameters))],
            Returned (DIntSlice (arr (bs_run xs (showComparisons_of parameters)))) None)"
  using assms
  by (simp add: BubbleSort_Execute_def Let_def bs_run_def showComparisons_of_def bs_init_def)

lemma input_array_slice: "input_array (DIntSlice xs) parameters = Go_on xs"
  by (simp add: input_array_def)

lemma bs_run_sorted: "sorted (arr (bs_run xs sc)) \<and> mset (arr (bs_run xs sc)) = mset xs"
  unfolding bs_run_def
  by (rule outer_loop_sorted) (simp add: tail_inv_def bs_init_def)



section \<open>Binary search: absent targets and step numbers\<close>

lemma search_loop_absent:
  "target \<notin> set a \<Longrightarrow> 0 \<le> left \<Longrightarrow> right < int (length a) \<Longrightarrow>
   \<exists>steps' c. search_loop a target left right comparisons' steps
                 = (steps', Returned (not_found_result c) None)"
proof (induction a target left right comparisons' steps rule: search_loop.induct)
  case (1 a target left right comparisons' steps)
  show ?case
  proof (cases "left \<le> right")
    case False
    then show ?thesis by (subst search_loop.simps) auto
  next
    case True
    define mid where "mid = left + (right - left) div 2"
    have mid: "left \<le> mid" "mid \<le> right" using True by (simp_all add: mid_def)
    then have inr: "\<not> (mid < 0 \<or> int (length a) \<le> mid)" using "1.prems" by simp
    have idx: "nat mid < length a" using mid "1.prems" by simp
    then have ne: "a ! nat mid \<noteq> target" using "1.prems"(1) by (metis nth_mem)
    show ?thesis
    proof (cases "a ! nat mid < target")
      case lt: True
      have "\<exists>steps' c. search_loop a target (mid + 1) right (comparisons' + 1)
               (steps @ [check_middle_step a target left right mid (comparisons' + 1)]
                  @ [search_right_step a target (mid + 1) right mid (comparisons' + 1)])
             = (steps', Returned (not_found_result c) None)"
        using "1.IH"(1) [OF True mid_def refl inr refl ne lt "1.prems"(1)] mid "1.prems"
        by simp
      then show ?thesis
        using True inr ne lt
        by (subst search_loop.simps) (simp add: Let_def mid_def [symmetric])
    next
      case ge: False
      have "\<exists>steps' c. search_loop a target left (mid - 1) (comparisons' + 1)
               (steps @ [check_middle_step a target left right mid (comparisons' + 1)]
                  @ [search_left_step a target left (mid - 1) mid (comparisons' + 1)])
             = (steps', Returned (not_found_result c) None)"
        using "1.IH"(2) [OF True mid_def refl inr refl ne ge "1.prems"(1)] mid "1.prems"
        by simp
      then show ?thesis
        using True inr ne ge
        by (subst search_loop.simps) (simp add: Let_def mid_def [symmetric])
    qed
  qed
qed




section \<open>Validation: what the checks skip and what they reject\<close>

lemmas metadata_defs =
  BubbleSort_metadata_def MergeSort_metadata_def QuickSort_metadata_def HeapSort_metadata_def
  CountingSort_metadata_def LinearSearch_metadata_def BinarySearch_metadata_def
  DFS_metadata_def BFS_metadata_def HashLookup_metadata_def

lemmas validator_defs =
  BubbleSort_ValidateParameters_def MergeSort_ValidateParameters_def
  QuickSort_ValidateParameters_def HeapSort_ValidateParameters_def
  CountingSort_ValidateParameters_def LinearSearch_ValidateParameters_def
  BinarySearch_ValidateParameters_def DFS_ValidateParameters_def BFS_ValidateParameters_def
  HashLookup_ValidateParameters_def

lemma wrong_kind_assert:
  "\<not> has_kind ''int'' v \<Longrightarrow> assert_int (Some v) = None"
  "\<not> has_kind ''string'' v \<Longrightarrow> assert_string (Some v) = None"
  "\<not> has_kind ''bool'' v \<Longrightarrow> assert_bool (Some v) = None"
  by (cases v; simp)+

lemma absent_or_wrong_kind_int:
  "absent_or_wrong_kind parameters \<lparr>Name = name, Type = ''int'', Default = d, Min' = lo,
      Max' = hi, Required = r\<rparr> \<Longrightarrow> assert_int (parameters name) = None"
  by (cases "parameters name") (simp_all add: absent_or_wrong_kind_def wrong_kind_assert)

lemma absent_or_wrong_kind_string:
  "absent_or_wrong_kind parameters \<lparr>Name = name, Type = ''string'', Default = d, Min' = lo,
      Max' = hi, Required = r\<rparr> \<Longrightarrow> assert_string (parameters name) = None"
  by (cases "parameters name") (simp_all add: absent_or_wrong_kind_def wrong_kind_assert)

lemma registered_cases:
  assumes "(meta, validate) \<in> set registered_validators"
  obtains "meta = BubbleSort_metadata" "validate = BubbleSort_ValidateParameters"
    | "meta = MergeSort_metadata" "validate = MergeSort_ValidateParameters"
    | "meta = QuickSort_metadata" "validate = QuickSort_ValidateParameters"
    | "meta = HeapSort_metadata" "validate = HeapSort_ValidateParameters"
    | "meta = CountingSort_metadata" "validate = CountingSort_ValidateParameters"
    | "meta = LinearSearch_metadata" "validate = LinearSearch_ValidateParameters"
    | "meta = BinarySearch_metadata" "validate = BinarySearch_ValidateParameters"
    | "meta = DFS_metadata" "validate = DFS_ValidateParameters"
    | "meta = BFS_metadata" "validate = BFS_ValidateParameters"
    | "meta = HashLookup_metadata" "validate = HashLookup_ValidateParameters"
  using assms unfolding registered_validators_def by auto

lemma skipped_checks_pass:
  assumes "(meta, validate) \<in> set registered_validators"
    and "\<forall>p \<in> set (Parameters meta). absent_or_wrong_kind parameters p"
  shows "validate parameters = None"
  using assms(1)
proof (cases rule: registered_cases)
  case 1 then show ?thesis using assms(2)
    by (auto simp: metadata_defs validator_defs absent_or_wrong_kind_def wrong_kind_assert split: option.splits)
next
  case 2 then show ?thesis using assms(2)
    by (auto simp: metadata_defs validator_defs absent_or_wrong_kind_def wrong_kind_assert split: option.splits)
next
  case 3 then show ?thesis using assms(2)
    by (auto simp: metadata_defs validator_defs absent_or_wrong_kind_def wrong_kind_assert split: option.splits)
next
  case 4 then show ?thesis using assms(2)
    by (auto simp: metadata_defs validator_defs absent_or_wrong_kind_def wrong_kind_assert split: option.splits)
next
  case 5 then show ?thesis using assms(2)
    by (auto simp: metadata_defs validator_defs absent_or_wrong_kind_def wrong_kind_assert split: option.splits)
next
  case 6 then show ?thesis using assms(2)
    by (auto simp: metadata_defs validator_defs absent_or_wrong_kind_def wrong_kind_assert split: option.splits)
next
  case 7 then show ?thesis using assms(2)
    by (auto simp: metadata_defs validator_defs absent_or_wrong_kind_def wrong_kind_assert split: option.splits)
next
  case 8 then show ?thesis using assms(2)
    by (auto simp: metadata_defs validator_defs absent_or_wrong_kind_def wrong_kind_assert split: option.splits)
next
  case 9 then show ?thesis using assms(2)
    by (auto simp: metadata_defs validator_defs absent_or_wrong_kind_def wrong_kind_assert split: option.splits)
next
  case 10 then show ?thesis using assms(2)
    by (auto simp: metadata_defs validator_defs absent_or_wrong_kind_def wrong_kind_assert split: option.splits)
qed

lemma wrong_kind_as_absent:
  assumes "(meta, validate) \<in> set registered_validators"
    and "p \<in> set (Parameters meta)" and "\<not> has_kind (Type p) v"
  shows "validate (parameters(Name p \<mapsto> v)) = validate (parameters(Name p := None))"
  using assms(1)
proof (cases rule: registered_cases)
  case 1 then show ?thesis using assms(2,3)
    by (auto simp: metadata_defs) (simp_all add: validator_defs wrong_kind_assert cong: option.case_cong)
next
  case 2 then show ?thesis using assms(2,3)
    by (auto simp: metadata_defs) (simp_all add: validator_defs wrong_kind_assert cong: option.case_cong)
next
  case 3 then show ?thesis using assms(2,3)
    by (auto simp: metadata_defs) (simp_all add: validator_defs wrong_kind_assert cong: option.case_cong)
next
  case 4 then show ?thesis using assms(2,3)
    by (auto simp: metadata_defs) (simp_all add: validator_defs wrong_kind_assert cong: option.case_cong)
next
  case 5 then show ?thesis using assms(2,3)
    by (auto simp: metadata_defs) (simp_all add: validator_defs wrong_kind_assert cong: option.case_cong)
next
  case 6 then show ?thesis using assms(2,3)
    by (auto simp: metadata_defs) (simp_all add: validator_defs wrong_kind_assert cong: option.case_cong)
next
  case 7 then show ?thesis using assms(2,3)
    by (auto simp: metadata_defs) (simp_all add: validator_defs wrong_kind_assert cong: option.case_cong)
next
  case 8 then show ?thesis using assms(2,3)
    by (auto simp: metadata_defs) (simp_all add: validator_defs wrong_kind_assert cong: option.case_cong)
next
  case 9 then show ?thesis using assms(2,3)
    by (auto simp: metadata_defs) (simp_all add: validator_defs wrong_kind_assert cong: option.case_cong)
next
  case 10 then show ?thesis using assms(2,3)
    by (auto simp: metadata_defs) (simp_all add: validator_defs wrong_kind_assert cong: option.case_cong)
qed

lemma first_parameter_required:
  assumes "(meta, validate) \<in> set registered_validators"
  shows "Required (hd (Parameters meta))"
  using assms by (cases rule: registered_cases) (simp_all add: metadata_defs)

lemma declared_range_enforced:
  assumes "(meta, validate) \<in> set registered_validators"
    and "p \<in> set (Parameters meta)"
    and "Name p \<in> {''array_size'', ''graph_size'', ''table_size'', ''max_value''}"
    and "parameters (Name p) = Some (DInt n)"
    and "Min' p = Some lo" and "Max' p = Some hi"
    and "n < lo \<or> hi < n"
  shows "validate parameters \<noteq> None"
  using assms(1)
proof (cases rule: registered_cases)
  case 1 then show ?thesis using assms(2-7) by (auto simp: metadata_defs validator_defs)
next
  case 2 then show ?thesis using assms(2-7) by (auto simp: metadata_defs validator_defs)
next
  case 3 then show ?thesis using assms(2-7) by (auto simp: metadata_defs validator_defs)
next
  case 4 then show ?thesis using assms(2-7) by (auto simp: metadata_defs validator_defs)
next
  case 5 then show ?thesis using assms(2-7)
    by (auto simp: metadata_defs validator_defs split: option.splits)
next
  case 6 then show ?thesis using assms(2-7) by (auto simp: metadata_defs validator_defs)
next
  case 7 then show ?thesis using assms(2-7) by (auto simp: metadata_defs validator_defs)
next
  case 8 then show ?thesis using assms(2-7) by (auto simp: metadata_defs validator_defs)
next
  case 9 then show ?thesis using assms(2-7) by (auto simp: metadata_defs validator_defs)
next
  case 10 then show ?thesis using assms(2-7) by (auto simp: metadata_defs validator_defs)
qed

section \<open>Orchestrator: what a request broadcasts and records\<close>

lemma fold_async_stepCallback:
  "fold async_stepCallback steps s =
     s\<lparr>execution := (execution s)\<lparr>Steps := Steps (execution s) @ steps\<rparr>,
       broadcasts := broadcasts s @ map step_message steps\<rparr>"
  by (induction steps arbitrary: s)
     (simp_all add: async_stepCallback_def Broadcast_def Let_def step_message_def)

lemma executeAlgorithmAsync_returned:
  assumes "Execute algorithm (Input ex) (exec_Parameters ex) = (steps, Returned result err)"
  shows "broadcasts (executeAlgorithmAsync algorithm ex) =
           map step_message steps
             @ [terminal_message (exec_ID ex) result err (length (Steps ex) + length steps)]"
    and "status_writes (executeAlgorithmAsync algorithm ex) =
           (if err = None then [StatusCompleted] else [StatusCompleted, StatusError])"
    and "Status (execution (executeAlgorithmAsync algorithm ex)) =
           (if err = None then StatusCompleted else StatusError)"
    and "Steps (execution (executeAlgorithmAsync algorithm ex)) = Steps ex @ steps"
    and "Output (execution (executeAlgorithmAsync algorithm ex)) = result"
    and "panicked (executeAlgorithmAsync algorithm ex) = False"
  using assms
  by (cases err;
      simp add: executeAlgorithmAsync_def fold_async_stepCallback Let_def assign_Status_def
                Broadcast_def terminal_message_def)+


lemma ExecuteAlgorithm_accepted:
  assumes "GetAlgorithm registry algorithmID = Some algorithm"
    and "ValidateParameters algorithm (req_Parameters request) = None"
  shows "ExecuteAlgorithm registry now algorithmID (Some request) =
           \<lparr>resp = \<lparr>status_code = 200,
                     body = Json [(''execution_id'', DString (''exec_'' @ fmt_d now)),
                                  (''status'', DString ''started''),
                                  (''message'', DString ''Algorithm execution started'')]\<rparr>,
            spawned = Some (algorithm,
                        \<lparr>exec_ID = ''exec_'' @ fmt_d now, AlgorithmID = algorithmID,
                         exec_Parameters = req_Parameters request, Input = req_Input request,
                         Output = DNil, Steps = [], Status = StatusRunning\<rparr>)\<rparr>"
  using assms by (simp add: ExecuteAlgorithm_def Let_def)

lemma registry_lookups:
  "GetAlgorithm sort_and_search_registry ''bubble_sort'' = Some NewBubbleSort"
  "GetAlgorithm sort_and_search_registry ''binary_search'' = Some NewBinarySearch"
  "GetAlgorithm sort_and_search_registry ''unknown_algorithm'' = None"
  by (simp_all add: GetAlgorithm_def sort_and_search_registry_def RegisterAlgorithm_def
        NewBubbleSort_def NewBinarySearch_def BubbleSort_metadata_def BinarySearch_metadata_def)

lemma executor_fields [simp]:
  "ValidateParameters NewBubbleSort = BubbleSort_ValidateParameters"
  "Execute NewBubbleSort = BubbleSort_Execute"
  "ValidateParameters NewBinarySearch = BinarySearch_ValidateParameters"
  "Execute NewBinarySearch = BinarySearch_Execute"
  by (simp_all add: NewBubbleSort_def NewBinarySearch_def)

lemma serve_accepted:
  assumes "GetAlgorithm registry algorithmID = Some algorithm"
    and "ValidateParameters algorithm (req_Parameters request) = None"
  shows "serve registry now algorithmID (Some request) =
           (\<lparr>status_code = 200,
             body = Json [(''execution_id'', DString (''exec_'' @ fmt_d now)),
                          (''status'', DString ''started''),
                          (''message'', DString ''Algorithm execution started'')]\<rparr>,
            Some (executeAlgorithmAsync algorithm
                    \<lparr>exec_ID = ''exec_'' @ fmt_d now, AlgorithmID = algorithmID,
                     exec_Parameters = req_Parameters request, Input = req_Input request,
                     Output = DNil, Steps = [], Status = StatusRunning\<rparr>))"
  by (simp add: serve_def Let_def ExecuteAlgorithm_accepted [OF assms])

lemma validate_empty [simp]:
  "BubbleSort_ValidateParameters Map.empty = None"
  "BinarySearch_ValidateParameters Map.empty = None"
  by (simp_all add: BubbleSort_ValidateParameters_def BinarySearch_ValidateParameters_def)

lemma BubbleSort_Execute_bad_input:
  "BubbleSort_Execute (DString ''abc'') parameters
     = ([], Returned DNil (Some ''invalid input type, expected []int''))"
  by (simp add: BubbleSort_Execute_def input_array_def)

lemma fmt_d_example: "fmt_d 1700000000000000000 = ''1700000000000000000''"
  by (simp add: fmt_d_def digits.simps)

lemma quick_sort_registry_lookup:
  "GetAlgorithm sorting_and_search_registry ''quick_sort'' = Some NewQuickSort"
  by (simp add: GetAlgorithm_def sorting_and_search_registry_def RegisterAlgorithm_def
        NewQuickSort_def QuickSort_metadata_def)

section \<open>The claims\<close>

text \<open>
  Claim C1 says that two accepted execution requests never get the same execution id.
  The handler builds the id from the clock reading alone, so two requests handled at the
  same reading collide. Below, a bubble sort request and a binary search request with
  empty parameters, both accepted at the reading 1700000000000000000, are answered with
  the same id
  \<open>exec_1700000000000000000\<close>.
\<close>

theorem timestamp_ids_collide:
  "body (resp (ExecuteAlgorithm sort_and_search_registry 1700000000000000000 ''bubble_sort''
            (Some \<lparr>req_Parameters = Map.empty, req_Input = DNil\<rparr>)))
     = Json [(''execution_id'', DString ''exec_1700000000000000000''),
             (''status'', DString ''started''),
             (''message'', DString ''Algorithm execution started'')]
   \<and> body (resp (ExecuteAlgorithm sort_and_search_registry 1700000000000000000 ''binary_search''
            (Some \<lparr>req_Parameters = Map.empty, req_Input = DNil\<rparr>)))
     = Json [(''execution_id'', DString ''exec_1700000000000000000''),
             (''status'', DString ''started''),
             (''message'', DString ''Algorithm execution started'')]"
  using ExecuteAlgorithm_accepted [OF registry_lookups(1), of "\<lparr>req_Parameters = Map.empty, req_Input = DNil\<rparr>" 1700000000000000000]
        ExecuteAlgorithm_accepted [OF registry_lookups(2), of "\<lparr>req_Parameters = Map.empty, req_Input = DNil\<rparr>" 1700000000000000000]
        fmt_d_example
  by simp

text \<open>
  Claim C2 says that the status of an execution is assigned a terminal value exactly
  once. When \<^verbatim>\<open>Execute\<close> returns an error this is not so: the assignment of
  \<^verbatim>\<open>StatusCompleted\<close> comes before the test of the error, and \<^verbatim>\<open>StatusError\<close> is assigned
  after it. A bubble sort request whose input is a string runs into it.
\<close>

theorem status_assigned_twice:
  "map_option status_writes
     (snd (serve sort_and_search_registry 1700000000000000000 ''bubble_sort''
             (Some \<lparr>req_Parameters = Map.empty, req_Input = DString ''abc''\<rparr>)))
   = Some [StatusCompleted, StatusError]"
proof -
  let ?ex = "\<lparr>exec_ID = ''exec_'' @ fmt_d 1700000000000000000, AlgorithmID = ''bubble_sort'',
              exec_Parameters = Map.empty, Input = DString ''abc'',
              Output = DNil, Steps = [], Status = StatusRunning\<rparr>"
  have run: "Execute NewBubbleSort (Input ?ex) (exec_Parameters ?ex)
               = ([], Returned DNil (Some ''invalid input type, expected []int''))"
    by (simp add: BubbleSort_Execute_bad_input)
  show ?thesis
    using executeAlgorithmAsync_returned(2) [OF run]
    by (simp add: serve_accepted [OF registry_lookups(1)])
qed

text \<open>
  Claim C2, as the code has it: an accepted execution starts with status Running; when
  \<^verbatim>\<open>Execute\<close> returns without an error the status is assigned once, to Completed; when
  it returns an error the status is assigned Completed and then Error. In both cases the
  status ends in the terminal value that fits the outcome.
\<close>

theorem status_ends_terminal:
  assumes "GetAlgorithm registry algorithmID = Some algorithm"
    and "ValidateParameters algorithm (req_Parameters request) = None"
    and "Execute algorithm (req_Input request) (req_Parameters request)
           = (steps, Returned result err)"
  shows "map_option (\<lambda>(a, ex). Status ex)
           (spawned (ExecuteAlgorithm registry now algorithmID (Some request)))
           = Some StatusRunning
       \<and> map_option status_writes (snd (serve registry now algorithmID (Some request)))
           = Some (if err = None then [StatusCompleted] else [StatusCompleted, StatusError])
       \<and> map_option (\<lambda>s. Status (execution s)) (snd (serve registry now algorithmID (Some request)))
           = Some (if err = None then StatusCompleted else StatusError)"
proof -
  let ?ex = "\<lparr>exec_ID = ''exec_'' @ fmt_d now, AlgorithmID = algorithmID,
              exec_Parameters = req_Parameters request, Input = req_Input request,
              Output = DNil, Steps = [], Status = StatusRunning\<rparr>"
  have run: "Execute algorithm (Input ?ex) (exec_Parameters ?ex) = (steps, Returned result err)"
    using assms(3) by simp
  show ?thesis
    using executeAlgorithmAsync_returned(2,3) [OF run]
    by (simp add: serve_accepted [OF assms(1,2)] ExecuteAlgorithm_accepted [OF assms(1,2)])
qed

text \<open>The theorem for claim C2 at the bubble sort request with a string as input.\<close>

theorem status_ends_terminal_witness:
  "GetAlgorithm sort_and_search_registry ''bubble_sort'' = Some NewBubbleSort
   \<and> ValidateParameters NewBubbleSort Map.empty = None
   \<and> Execute NewBubbleSort (DString ''abc'') Map.empty
        = ([], Returned DNil (Some ''invalid input type, expected []int''))
   \<and> map_option (\<lambda>s. Status (execution s))
        (snd (serve sort_and_search_registry 1700000000000000000 ''bubble_sort''
                (Some \<lparr>req_Parameters = Map.empty, req_Input = DString ''abc''\<rparr>)))
        = Some StatusError"
proof -
  have h1: "GetAlgorithm sort_and_search_registry ''bubble_sort'' = Some NewBubbleSort"
    by (rule registry_lookups)
  have h2: "ValidateParameters NewBubbleSort
              (req_Parameters \<lparr>req_Parameters = Map.empty, req_Input = DString ''abc''\<rparr>) = None"
    by simp
  have h3: "Execute NewBubbleSort
              (req_Input \<lparr>req_Parameters = Map.empty, req_Input = DString ''abc''\<rparr>)
              (req_Parameters \<lparr>req_Parameters = Map.empty, req_Input = DString ''abc''\<rparr>)
            = ([], Returned DNil (Some ''invalid input type, expected []int''))"
    by (simp add: BubbleSort_Execute_bad_input)
  show ?thesis
    using status_ends_terminal [OF h1 h2 h3, of 1700000000000000000] h1 h2 h3 by simp
qed

text \<open>
  Claim C3 says that \<^verbatim>\<open>ValidateParameters\<close> returns an error for every value that is
  out of its declared range or of the wrong kind. It does not: bubble sort declares
  \<open>array_size\<close> an int, and a string or a float64 there passes, because the check sits
  behind the type assertion; depth-first and breadth-first search declare \<open>start_node\<close>
  and \<open>target_node\<close> with the maximum 19 and their validators never look at them, so 50
  passes.
\<close>

theorem wrong_kind_accepted:
  "Name (Parameters BubbleSort_metadata ! 0) = ''array_size''
   \<and> Type (Parameters BubbleSort_metadata ! 0) = ''int''
   \<and> \<not> has_kind ''int'' (DString ''1000'')
   \<and> BubbleSort_ValidateParameters [''array_size'' \<mapsto> DString ''1000''] = None
   \<and> BubbleSort_ValidateParameters [''array_size'' \<mapsto> DFloat64 1000] = None
   \<and> Name (Parameters BFS_metadata ! 1) = ''start_node''
   \<and> Max' (Parameters BFS_metadata ! 1) = Some 19
   \<and> BFS_ValidateParameters [''start_node'' \<mapsto> DInt 50] = None
   \<and> Name (Parameters BFS_metadata ! 2) = ''target_node''
   \<and> Max' (Parameters BFS_metadata ! 2) = Some 19
   \<and> BFS_ValidateParameters [''target_node'' \<mapsto> DInt 50] = None
   \<and> Name (Parameters DFS_metadata ! 1) = ''start_node''
   \<and> Max' (Parameters DFS_metadata ! 1) = Some 19
   \<and> DFS_ValidateParameters [''start_node'' \<mapsto> DInt 50] = None
   \<and> Name (Parameters DFS_metadata ! 2) = ''target_node''
   \<and> Max' (Parameters DFS_metadata ! 2) = Some 19
   \<and> DFS_ValidateParameters [''target_node'' \<mapsto> DInt 50] = None"
  by (simp add: BubbleSort_metadata_def BFS_metadata_def DFS_metadata_def
        BubbleSort_ValidateParameters_def BFS_ValidateParameters_def DFS_ValidateParameters_def)

text \<open>
  Claim C3, as far as it holds. Every registered validator returns an error when one of
  the declared parameters \<open>array_size\<close>, \<open>graph_size\<close>, \<open>table_size\<close> and \<open>max_value\<close>
  holds an int outside its declared minimum and maximum. And whenever the validator of
  the requested algorithm returns an error, the handler answers 400 with that error and
  starts no goroutine: no execution context exists and the hub is handed nothing.
\<close>

theorem validation_error_400:
  "((meta, validate) \<in> set registered_validators
      \<and> p \<in> set (Parameters meta)
      \<and> Name p \<in> {''array_size'', ''graph_size'', ''table_size'', ''max_value''}
      \<and> parameters (Name p) = Some (DInt n)
      \<and> Min' p = Some lo \<and> Max' p = Some hi
      \<and> (n < lo \<or> hi < n)
     \<longrightarrow> validate parameters \<noteq> None)
   \<and> (GetAlgorithm registry algorithmID = Some algorithm
      \<and> ValidateParameters algorithm (req_Parameters request) = Some err
     \<longrightarrow> ExecuteAlgorithm registry now algorithmID (Some request)
           = \<lparr>resp = \<lparr>status_code = 400, body = Text (''Invalid parameters: '' @ err)\<rparr>,
              spawned = None\<rparr>
         \<and> snd (serve registry now algorithmID (Some request)) = None
         \<and> hub_received (serve registry now algorithmID (Some request)) = [])"
proof (intro conjI impI)
  assume "(meta, validate) \<in> set registered_validators
      \<and> p \<in> set (Parameters meta)
      \<and> Name p \<in> {''array_size'', ''graph_size'', ''table_size'', ''max_value''}
      \<and> parameters (Name p) = Some (DInt n)
      \<and> Min' p = Some lo \<and> Max' p = Some hi
      \<and> (n < lo \<or> hi < n)"
  then show "validate parameters \<noteq> None"
    using declared_range_enforced [of meta validate p parameters n lo hi] by blast
next
  assume a: "GetAlgorithm registry algorithmID = Some algorithm
      \<and> ValidateParameters algorithm (req_Parameters request) = Some err"
  then show "ExecuteAlgorithm registry now algorithmID (Some request)
           = \<lparr>resp = \<lparr>status_code = 400, body = Text (''Invalid parameters: '' @ err)\<rparr>,
              spawned = None\<rparr>"
    by (simp add: ExecuteAlgorithm_def http_Error_def)
  then show "snd (serve registry now algorithmID (Some request)) = None"
    and "hub_received (serve registry now algorithmID (Some request)) = []"
    by (simp_all add: serve_def hub_received_def)
qed

text \<open>The theorem for claim C3 at counting sort with \<open>max_value\<close> 200, and at a
  request for quick sort with the parameters \<open>{"pivot_strategy": "bogus"}\<close>, which is
  what the decoder makes of that JSON text.\<close>

theorem validation_error_400_witness:
  "(CountingSort_metadata, CountingSort_ValidateParameters) \<in> set registered_validators
   \<and> Parameters CountingSort_metadata ! 1 \<in> set (Parameters CountingSort_metadata)
   \<and> Name (Parameters CountingSort_metadata ! 1) = ''max_value''
   \<and> Min' (Parameters CountingSort_metadata ! 1) = Some 5
   \<and> Max' (Parameters CountingSort_metadata ! 1) = Some 100
   \<and> CountingSort_ValidateParameters [''array_size'' \<mapsto> DInt 10, ''max_value'' \<mapsto> DInt 200] \<noteq> None
   \<and> decoded_value (DString ''bogus'')
   \<and> GetAlgorithm sorting_and_search_registry ''quick_sort'' = Some NewQuickSort
   \<and> ValidateParameters NewQuickSort [''pivot_strategy'' \<mapsto> DString ''bogus'']
        = Some ''pivot_strategy must be one of: first, last, middle''
   \<and> resp (ExecuteAlgorithm sorting_and_search_registry 1700000000000000000 ''quick_sort''
        (Some \<lparr>req_Parameters = [''pivot_strategy'' \<mapsto> DString ''bogus''], req_Input = DNil\<rparr>))
       = \<lparr>status_code = 400,
          body = Text ''Invalid parameters: pivot_strategy must be one of: first, last, middle''\<rparr>
   \<and> spawned (ExecuteAlgorithm sorting_and_search_registry 1700000000000000000 ''quick_sort''
        (Some \<lparr>req_Parameters = [''pivot_strategy'' \<mapsto> DString ''bogus''], req_Input = DNil\<rparr>))
       = None
   \<and> hub_received (serve sorting_and_search_registry 1700000000000000000 ''quick_sort''
        (Some \<lparr>req_Parameters = [''pivot_strategy'' \<mapsto> DString ''bogus''], req_Input = DNil\<rparr>)) = []"
proof -
  let ?p = "Parameters CountingSort_metadata ! 1"
  let ?ps = "[''array_size'' \<mapsto> DInt 10, ''max_value'' \<mapsto> DInt 200]"
  have h1: "(CountingSort_metadata, CountingSort_ValidateParameters) \<in> set registered_validators"
    by (simp add: registered_validators_def)
  have h2: "?p \<in> set (Parameters CountingSort_metadata)" "Name ?p = ''max_value''"
    "Min' ?p = Some 5" "Max' ?p = Some 100" "?ps (Name ?p) = Some (DInt 200)"
    by (simp_all add: CountingSort_metadata_def)
  have h3: "GetAlgorithm sorting_and_search_registry ''quick_sort'' = Some NewQuickSort"
    by (rule quick_sort_registry_lookup)
  have h4: "ValidateParameters NewQuickSort [''pivot_strategy'' \<mapsto> DString ''bogus'']
        = Some ''pivot_strategy must be one of: first, last, middle''"
    by (simp add: NewQuickSort_def QuickSort_ValidateParameters_def)
  show ?thesis
    using validation_error_400 [where meta = CountingSort_metadata
            and validate = CountingSort_ValidateParameters and p = ?p
            and parameters = ?ps and n = 200 and lo = 5 and hi = 100
            and registry = sorting_and_search_registry and algorithmID = "''quick_sort''"
            and algorithm = NewQuickSort
            and request = "\<lparr>req_Parameters = [''pivot_strategy'' \<mapsto> DString ''bogus''], req_Input = DNil\<rparr>"
            and err = "''pivot_strategy must be one of: first, last, middle''"
            and now = 1700000000000000000]
          h1 h2 h3 h4
    by simp
qed

text \<open>
  Claim C4: for an accepted request whose \<^verbatim>\<open>Execute\<close> returns, the hub is handed one
  message per step, in order, and then exactly one last message: \<open>execution_error\<close>
  with the reason when an error was returned, otherwise \<open>execution_complete\<close> with
  the output and the number of steps. The HTTP response is the acknowledgement
  \<open>started\<close> whatever \<^verbatim>\<open>Execute\<close> returns.
\<close>

theorem terminal_envelope:
  assumes "GetAlgorithm registry algorithmID = Some algorithm"
    and "ValidateParameters algorithm (req_Parameters request) = None"
    and "Execute algorithm (req_Input request) (req_Parameters request)
           = (steps, Returned result err)"
  shows "resp (ExecuteAlgorithm registry now algorithmID (Some request))
           = \<lparr>status_code = 200,
              body = Json [(''execution_id'', DString (''exec_'' @ fmt_d now)),
                           (''status'', DString ''started''),
                           (''message'', DString ''Algorithm execution started'')]\<rparr>
       \<and> hub_received (serve registry now algorithmID (Some request))
           = map step_message steps
               @ [terminal_message (''exec_'' @ fmt_d now) result err (length steps)]
       \<and> length (filter (\<lambda>m. msg_Type m = ''execution_complete'' \<or> msg_Type m = ''execution_error'')
                   (hub_received (serve registry now algorithmID (Some request)))) = 1"
proof -
  let ?ex = "\<lparr>exec_ID = ''exec_'' @ fmt_d now, AlgorithmID = algorithmID,
              exec_Parameters = req_Parameters request, Input = req_Input request,
              Output = DNil, Steps = [], Status = StatusRunning\<rparr>"
  have run: "Execute algorithm (Input ?ex) (exec_Parameters ?ex) = (steps, Returned result err)"
    using assms(3) by simp
  have hub: "hub_received (serve registry now algorithmID (Some request))
               = map step_message steps
                   @ [terminal_message (''exec_'' @ fmt_d now) result err (length steps)]"
    using executeAlgorithmAsync_returned(1) [OF run]
    by (simp add: hub_received_def serve_accepted [OF assms(1,2)])
  have none: "filter (\<lambda>m. msg_Type m = ''execution_complete'' \<or> msg_Type m = ''execution_error'')
                (map step_message steps) = []"
    by (induction steps) (simp_all add: step_message_def)
  have one: "length (filter (\<lambda>m. msg_Type m = ''execution_complete'' \<or> msg_Type m = ''execution_error'')
                (map step_message steps
                   @ [terminal_message (''exec_'' @ fmt_d now) result err (length steps)])) = 1"
    using none by (cases err) (simp_all add: terminal_message_def)
  show ?thesis
    using hub one by (simp add: ExecuteAlgorithm_accepted [OF assms(1,2)])
qed

text \<open>The theorem for claim C4 at the bubble sort request with a string as input, whose
  only message is the error.\<close>

theorem terminal_envelope_witness:
  "GetAlgorithm sort_and_search_registry ''bubble_sort'' = Some NewBubbleSort
   \<and> ValidateParameters NewBubbleSort Map.empty = None
   \<and> Execute NewBubbleSort (DString ''abc'') Map.empty
        = ([], Returned DNil (Some ''invalid input type, expected []int''))
   \<and> status_code (resp (ExecuteAlgorithm sort_and_search_registry 1700000000000000000
        ''bubble_sort'' (Some \<lparr>req_Parameters = Map.empty, req_Input = DString ''abc''\<rparr>))) = 200
   \<and> hub_received (serve sort_and_search_registry 1700000000000000000 ''bubble_sort''
                (Some \<lparr>req_Parameters = Map.empty, req_Input = DString ''abc''\<rparr>))
        = [\<lparr>msg_Type = ''execution_error'',
            msg_Data = MapData [(''execution_id'', DString ''exec_1700000000000000000''),
                                (''error'', DString ''invalid input type, expected []int'')]\<rparr>]"
proof -
  have h1: "GetAlgorithm sort_and_search_registry ''bubble_sort'' = Some NewBubbleSort"
    by (rule registry_lookups)
  have h2: "ValidateParameters NewBubbleSort
              (req_Parameters \<lparr>req_Parameters = Map.empty, req_Input = DString ''abc''\<rparr>) = None"
    by simp
  have h3: "Execute NewBubbleSort
              (req_Input \<lparr>req_Parameters = Map.empty, req_Input = DString ''abc''\<rparr>)
              (req_Parameters \<lparr>req_Parameters = Map.empty, req_Input = DString ''abc''\<rparr>)
            = ([], Returned DNil (Some ''invalid input type, expected []int''))"
    by (simp add: BubbleSort_Execute_bad_input)
  show ?thesis
    using terminal_envelope [OF h1 h2 h3, of 1700000000000000000] h1 h2 h3
    by (simp add: terminal_message_def fmt_d_example)
qed

text \<open>
  Claim C5: on every input array \<^verbatim>\<open>BubbleSort.Execute\<close> returns, without an error, an
  array in non-decreasing order with the elements of the input, and the last step it
  reports has the action \<open>complete\<close>. The same holds without an input for
  \<open>array_size\<close> 5, where the generated array is 1 to 5.
\<close>

theorem BubbleSort_sorts:
  "(\<exists>steps ys. BubbleSort_Execute (DIntSlice xs) parameters = (steps, Returned (DIntSlice ys) None)
       \<and> sorted ys \<and> mset ys = mset xs \<and> steps \<noteq> [] \<and> Action (last steps) = ''complete'')
   \<and> (\<exists>steps. BubbleSort_Execute DNil (parameters(''array_size'' \<mapsto> DInt 5))
                 = (steps, Returned (DIntSlice [1, 2, 3, 4, 5]) None)
          \<and> steps \<noteq> [] \<and> Action (last steps) = ''complete'')"
proof
  show "\<exists>steps ys. BubbleSort_Execute (DIntSlice xs) parameters = (steps, Returned (DIntSlice ys) None)
       \<and> sorted ys \<and> mset ys = mset xs \<and> steps \<noteq> [] \<and> Action (last steps) = ''complete''"
    using bs_run_sorted [of xs "showComparisons_of parameters"]
    by (simp add: BubbleSort_Execute_run [OF input_array_slice] complete_step_def)
next
  let ?p = "parameters(''array_size'' \<mapsto> DInt 5)"
  have gen: "input_array DNil ?p = Go_on [1..5]"
    by (rule input_array_generated) simp_all
  have "arr (bs_run [1..5] (showComparisons_of ?p)) = [1..5]"
    using bs_run_sorted [of "[1..5]" "showComparisons_of ?p"]
    by (intro sorted_perm_of_sorted) simp_all
  moreover have "[1..5] = [1, 2, 3, 4, 5 :: int]" by (simp add: upto.simps)
  ultimately show "\<exists>steps. BubbleSort_Execute DNil ?p
                 = (steps, Returned (DIntSlice [1, 2, 3, 4, 5]) None)
          \<and> steps \<noteq> [] \<and> Action (last steps) = ''complete''"
    by (simp add: BubbleSort_Execute_run [OF gen] complete_step_def)
qed

text \<open>The theorem for claim C5 at the array 3, 1, 2.\<close>

theorem BubbleSort_sorts_witness:
  "snd (BubbleSort_Execute (DIntSlice [3, 1, 2]) Map.empty) = Returned (DIntSlice [1, 2, 3]) None
   \<and> Action (last (fst (BubbleSort_Execute (DIntSlice [3, 1, 2]) Map.empty))) = ''complete''"
proof -
  from BubbleSort_sorts [of "[3, 1, 2]" Map.empty]
  obtain steps ys where r: "BubbleSort_Execute (DIntSlice [3, 1, 2]) Map.empty
                              = (steps, Returned (DIntSlice ys) None)"
    and ys: "sorted ys" "mset ys = mset [3, 1, 2]" and l: "Action (last steps) = ''complete''"
    by blast
  have "ys = [1, 2, 3]"
    by (rule sorted_perm_of_sorted [OF _ ys(1)]) (simp_all add: ys(2))
  then show ?thesis using r l by simp
qed

text \<open>
  Claim C6: when the target (the parameter \<open>target\<close> if it is an int, else 5) is not
  in the input array, \<^verbatim>\<open>BinarySearch.Execute\<close> returns, without an error, the map with
  \<open>found\<close> false, \<open>index\<close> -1 and \<open>value\<close> nil.
\<close>

theorem BinarySearch_absent:
  assumes "(case assert_int (parameters ''target'') of Some t \<Rightarrow> t | None \<Rightarrow> 5) \<notin> set xs"
  shows "\<exists>steps c. BinarySearch_Execute (DIntSlice xs) parameters =
           (steps, Returned (DMap [(''found'', DBool False), (''index'', DInt (- 1)),
                                   (''value'', DNil), (''comparisons'', DInt c)]) None)"
proof -
  let ?t = "case assert_int (parameters ''target'') of Some t \<Rightarrow> t | None \<Rightarrow> 5"
  have "?t \<notin> set (sort xs)" using assms by simp
  from search_loop_absent [OF this, of 0 "int (length (sort xs)) - 1" 0
         "[search_initialize_step (sort xs) ?t]"]
  show ?thesis
    by (simp add: BinarySearch_Execute_def input_array_slice Let_def not_found_result_def)
qed

text \<open>The theorem for claim C6 at the array 3, 1, 2 and the target 7.\<close>

theorem BinarySearch_absent_witness:
  "(case assert_int ([''target'' \<mapsto> DInt 7] ''target'') of Some t \<Rightarrow> t | None \<Rightarrow> 5)
      \<notin> set [3, 1, 2 :: int]
   \<and> snd (BinarySearch_Execute (DIntSlice [3, 1, 2]) [''target'' \<mapsto> DInt 7])
       = Returned (DMap [(''found'', DBool False), (''index'', DInt (- 1)),
                         (''value'', DNil), (''comparisons'', DInt 2)]) None"
proof -
  have h: "(case assert_int ([''target'' \<mapsto> DInt 7] ''target'') of Some t \<Rightarrow> t | None \<Rightarrow> 5)
             \<notin> set [3, 1, 2 :: int]"
    by simp
  have c: "snd (BinarySearch_Execute (DIntSlice [3, 1, 2]) [''target'' \<mapsto> DInt 7])
       = Returned (DMap [(''found'', DBool False), (''index'', DInt (- 1)),
                         (''value'', DNil), (''comparisons'', DInt 2)]) None"
    by code_simp
  show ?thesis
    using BinarySearch_absent [where parameters = "[''target'' \<mapsto> DInt 7]" and xs = "[3, 1, 2]"] h c
    by simp
qed

text \<open>
  Claim C7: a request for an id that the registry does not hold is answered 404; the
  handler starts no goroutine, so there is no execution id, no execution context, and the
  hub is handed nothing.
\<close>

theorem unknown_algorithm_404:
  assumes "GetAlgorithm registry algorithmID = None"
  shows "ExecuteAlgorithm registry now algorithmID decoded
           = \<lparr>resp = \<lparr>status_code = 404, body = Text ''Algorithm not found''\<rparr>, spawned = None\<rparr>
       \<and> snd (serve registry now algorithmID decoded) = None
       \<and> hub_received (serve registry now algorithmID decoded) = []"
  using assms by (simp add: ExecuteAlgorithm_def serve_def hub_received_def http_Error_def)

text \<open>The theorem for claim C7 at the id \<open>unknown_algorithm\<close>.\<close>

theorem unknown_algorithm_404_witness:
  "GetAlgorithm sort_and_search_registry ''unknown_algorithm'' = None
   \<and> resp (ExecuteAlgorithm sort_and_search_registry 1700000000000000000 ''unknown_algorithm''
        (Some \<lparr>req_Parameters = Map.empty, req_Input = DNil\<rparr>))
       = \<lparr>status_code = 404, body = Text ''Algorithm not found''\<rparr>
   \<and> spawned (ExecuteAlgorithm sort_and_search_registry 1700000000000000000 ''unknown_algorithm''
        (Some \<lparr>req_Parameters = Map.empty, req_Input = DNil\<rparr>)) = None
   \<and> hub_received (serve sort_and_search_registry 1700000000000000000 ''unknown_algorithm''
        (Some \<lparr>req_Parameters = Map.empty, req_Input = DNil\<rparr>)) = []"
  using unknown_algorithm_404 [OF registry_lookups(3), of 1700000000000000000
          "Some \<lparr>req_Parameters = Map.empty, req_Input = DNil\<rparr>"] registry_lookups(3)
  by simp




text \<open>
  Claim C9 says that every algorithm run without an input works on a sorted array.
  Counting sort has a generator of its own, whose values start again at 1 after
  \<open>max_value\<close>: for \<open>array_size\<close> 6 and \<open>max_value\<close> 5, which its validator accepts,
  it works on 1, 2, 3, 4, 5, 1.
\<close>

theorem counting_sort_input_unsorted:
  "CountingSort_ValidateParameters [''array_size'' \<mapsto> DInt 6, ''max_value'' \<mapsto> DInt 5] = None
   \<and> CountingSort_input_array DNil [''array_size'' \<mapsto> DInt 6, ''max_value'' \<mapsto> DInt 5]
       = Go_on [1, 2, 3, 4, 5, 1]
   \<and> \<not> sorted [1, 2, 3, 4, 5, 1 :: int]"
proof -
  have "fill_loop_max 6 5 0 (replicate 6 0) = Some [1, 2, 3, 4, 5, 1]"
    by code_simp
  then show ?thesis
    by (simp add: CountingSort_ValidateParameters_def CountingSort_input_array_def
          generateRandomArrayWithMax_def shuffle_loop_id)
qed

text \<open>
  Claim C9, as the code has it: for \<open>n \<ge> 1\<close>, \<^verbatim>\<open>generateRandomArray\<close> returns the
  ascending array 1 to \<open>n\<close>, its shuffle loop changes no array, and the algorithms that
  open with it (bubble, merge, quick and heap sort, linear and binary search) work on
  1 to \<open>array_size\<close>, or on 1 to 10 without that parameter, when given no input.
\<close>

theorem generateRandomArray_ascending:
  assumes "1 \<le> n"
  shows "generateRandomArray n = Some [1..n]
       \<and> sorted [1..n]
       \<and> shuffle_loop i a = a
       \<and> input_array DNil (parameters(''array_size'' \<mapsto> DInt n)) = Go_on [1..n]
       \<and> input_array DNil (parameters(''array_size'' := None)) = Go_on [1..10]"
  using assms
  by (simp add: generateRandomArray_eq shuffle_loop_id input_array_generated input_array_default)

text \<open>The theorem for claim C9 at size 5.\<close>

theorem generateRandomArray_ascending_witness:
  "(1 :: int) \<le> 5
   \<and> generateRandomArray 5 = Some [1, 2, 3, 4, 5]
   \<and> shuffle_loop 4 [1, 2, 3, 4, 5] = [1, 2, 3, 4, 5]
   \<and> input_array DNil [''array_size'' \<mapsto> DInt 5] = Go_on [1, 2, 3, 4, 5]"
proof -
  have u: "[1..5] = [1, 2, 3, 4, 5 :: int]" by (simp add: upto.simps)
  show ?thesis
    using generateRandomArray_ascending [of 5 4 "[1, 2, 3, 4, 5]" Map.empty] u by simp
qed

text \<open>
  Claim C10 says that a validator returns no error whenever a declared parameter is
  missing or of another type than declared. One such parameter is not enough: quick sort
  rejects the strategy \<open>bogus\<close> although \<open>array_size\<close> is missing, or is a float64, and
  bubble sort rejects the int 1000 for \<open>array_size\<close> although \<open>show_comparisons\<close> is
  missing.
\<close>

theorem some_absent_still_rejected:
  "Name (Parameters QuickSort_metadata ! 0) = ''array_size''
   \<and> [''pivot_strategy'' \<mapsto> DString ''bogus''] ''array_size'' = None
   \<and> QuickSort_ValidateParameters [''pivot_strategy'' \<mapsto> DString ''bogus'']
       = Some ''pivot_strategy must be one of: first, last, middle''
   \<and> Type (Parameters QuickSort_metadata ! 0) = ''int''
   \<and> \<not> has_kind ''int'' (DFloat64 10)
   \<and> QuickSort_ValidateParameters
         [''array_size'' \<mapsto> DFloat64 10, ''pivot_strategy'' \<mapsto> DString ''bogus'']
       = Some ''pivot_strategy must be one of: first, last, middle''
   \<and> Name (Parameters BubbleSort_metadata ! 1) = ''show_comparisons''
   \<and> [''array_size'' \<mapsto> DInt 1000] ''show_comparisons'' = None
   \<and> BubbleSort_ValidateParameters [''array_size'' \<mapsto> DInt 1000]
       = Some ''array_size must be between 3 and 100''"
  by (simp add: QuickSort_metadata_def BubbleSort_metadata_def QuickSort_ValidateParameters_def
        BubbleSort_ValidateParameters_def)

text \<open>
  Claim C10, as the code has it: every registered validator returns no error when every
  declared parameter is missing or of another kind than declared; a value of the wrong
  kind is treated as a missing one, as each check sits behind a type assertion; so the
  empty map passes, although the first parameter of every algorithm is marked required.
\<close>

theorem validation_skips:
  assumes "(meta, validate) \<in> set registered_validators"
  shows "((\<forall>p \<in> set (Parameters meta). absent_or_wrong_kind parameters p)
            \<longrightarrow> validate parameters = None)
       \<and> (p \<in> set (Parameters meta) \<and> \<not> has_kind (Type p) v
            \<longrightarrow> validate (parameters(Name p \<mapsto> v)) = validate (parameters(Name p := None)))
       \<and> validate Map.empty = None
       \<and> Required (hd (Parameters meta))"
proof (intro conjI impI)
  show "validate parameters = None"
    if "\<forall>p \<in> set (Parameters meta). absent_or_wrong_kind parameters p"
    using skipped_checks_pass [OF assms that] .
  show "validate (parameters(Name p \<mapsto> v)) = validate (parameters(Name p := None))"
    if "p \<in> set (Parameters meta) \<and> \<not> has_kind (Type p) v"
    using wrong_kind_as_absent [OF assms, of p v] that by blast
  show "validate Map.empty = None"
    by (rule skipped_checks_pass [OF assms]) (simp add: absent_or_wrong_kind_def)
  show "Required (hd (Parameters meta))"
    by (rule first_parameter_required [OF assms])
qed

text \<open>The theorem for claim C10 at quick sort with a string for \<open>array_size\<close> and an
  int for \<open>pivot_strategy\<close>.\<close>

theorem validation_skips_witness:
  "(QuickSort_metadata, QuickSort_ValidateParameters) \<in> set registered_validators
   \<and> list_all (absent_or_wrong_kind [''array_size'' \<mapsto> DString ''huge'', ''pivot_strategy'' \<mapsto> DInt 3])
        (Parameters QuickSort_metadata)
   \<and> QuickSort_ValidateParameters
        [''array_size'' \<mapsto> DString ''huge'', ''pivot_strategy'' \<mapsto> DInt 3] = None
   \<and> hd (Parameters QuickSort_metadata) \<in> set (Parameters QuickSort_metadata)
   \<and> \<not> has_kind (Type (hd (Parameters QuickSort_metadata))) (DFloat64 1000)
   \<and> QuickSort_ValidateParameters [''array_size'' \<mapsto> DFloat64 1000]
       = QuickSort_ValidateParameters Map.empty
   \<and> QuickSort_ValidateParameters Map.empty = None
   \<and> Required (hd (Parameters QuickSort_metadata))"
proof -
  let ?ps = "[''array_size'' \<mapsto> DString ''huge'', ''pivot_strategy'' \<mapsto> DInt 3]"
  let ?p = "hd (Parameters QuickSort_metadata)"
  have h1: "(QuickSort_metadata, QuickSort_ValidateParameters) \<in> set registered_validators"
    by (simp add: registered_validators_def)
  have h2: "\<forall>p \<in> set (Parameters QuickSort_metadata). absent_or_wrong_kind ?ps p"
    by (simp add: QuickSort_metadata_def absent_or_wrong_kind_def)
  have h3: "?p \<in> set (Parameters QuickSort_metadata)" "\<not> has_kind (Type ?p) (DFloat64 1000)"
    "Name ?p = ''array_size''"
    by (simp_all add: QuickSort_metadata_def)
  show ?thesis
    using validation_skips [OF h1, of ?ps] h1 h2 h3
          validation_skips [OF h1, of Map.empty ?p "DFloat64 1000"]
    by (simp add: list_all_iff)
qed

end
